theory Spec2Isabelle
  imports
    Main
    "HOL-Library.Word"
    "HOL-Library.Multiset"
    "HOL-Library.List_Lexorder"
    "HOL-Library.Product_Lexorder"
begin

section \<open>JavaScript values of the OAuth 1.0a client\<close>

text \<open>
  A JavaScript string is a sequence of 16-bit code units. String literals of the source are
  written \<open>str ''...''\<close>; all of them are ASCII.
\<close>

type_synonym code_unit = "16 word"
type_synonym jsstring = "code_unit list"

definition str :: "string \<Rightarrow> jsstring" where
  "str s = map of_char s"

text \<open>
  The errors the code can throw: \<open>URIError\<close> by the built-in \<open>encodeURIComponent\<close>,
  \<open>TypeError\<close> by the language (spreading a non-iterable, calling a missing method), and the
  repository's own \<open>OAuthError\<close> (src/oauth/error.js) with its message.
\<close>

datatype error = URIError | TypeError | OAuthError string

text \<open>
  The primitive values that reach the code: parameter values are strings by contract, the
  timestamp is a number, \<open>URLSearchParams.get\<close> returns a string or \<open>null\<close>, an omitted option
  is \<open>undefined\<close>. Numbers are the integers whose \<open>Number::toString\<close> is the plain decimal
  numeral (magnitude below \<open>10^21\<close>), which covers \<open>Math.floor(Date.now() / 1000)\<close>.
\<close>

datatype jsval = Undefined | Null | Bool bool | Num int | Str jsstring

fun digits :: "nat \<Rightarrow> jsstring" where
  "digits n = (if n < 10 then [of_nat (48 + n)] else digits (n div 10) @ [of_nat (48 + n mod 10)])"

declare digits.simps [simp del]

fun ToString :: "jsval \<Rightarrow> jsstring" where
  "ToString Undefined = str ''undefined''"
| "ToString Null = str ''null''"
| "ToString (Bool b) = (if b then str ''true'' else str ''false'')"
| "ToString (Num i) = (if i < 0 then str ''-'' @ digits (nat (- i)) else digits (nat i))"
| "ToString (Str s) = s"

fun ToBoolean :: "jsval \<Rightarrow> bool" where
  "ToBoolean Undefined = False"
| "ToBoolean Null = False"
| "ToBoolean (Bool b) = b"
| "ToBoolean (Num i) = (i \<noteq> 0)"
| "ToBoolean (Str s) = (s \<noteq> [])"


section \<open>Percent-encoding (src/encoding/uri.js)\<close>

subsection \<open>The built-in \<open>encodeURIComponent\<close>\<close>

text \<open>
  \<open>encodeURIComponentRFC2396\<close> is the built-in \<open>encodeURIComponent\<close>. It is modelled after
  the abstract operation Encode of ECMA-262: a code unit of the unescaped set is copied;
  otherwise the code point at that position is read (a lead surrogate followed by a trail
  surrogate is one code point, any other surrogate is unpaired and throws \<open>URIError\<close>), and each
  octet of its UTF-8 form is written as \<open>%\<close> and two uppercase hexadecimal digits.
\<close>

definition isLeadSurrogate :: "code_unit \<Rightarrow> bool" where
  "isLeadSurrogate c = (0xD800 \<le> unat c \<and> unat c \<le> 0xDBFF)"

definition isTrailSurrogate :: "code_unit \<Rightarrow> bool" where
  "isTrailSurrogate c = (0xDC00 \<le> unat c \<and> unat c \<le> 0xDFFF)"

definition surrogatePair :: "code_unit \<Rightarrow> code_unit \<Rightarrow> nat" where
  "surrogatePair lead trail = (unat lead - 0xD800) * 0x400 + (unat trail - 0xDC00) + 0x10000"

definition utf8 :: "nat \<Rightarrow> nat list" where
  "utf8 cp =
     (if cp < 0x80 then [cp]
      else if cp < 0x800 then [0xC0 + cp div 0x40, 0x80 + cp mod 0x40]
      else if cp < 0x10000 then
        [0xE0 + cp div 0x1000, 0x80 + cp div 0x40 mod 0x40, 0x80 + cp mod 0x40]
      else
        [0xF0 + cp div 0x40000, 0x80 + cp div 0x1000 mod 0x40,
         0x80 + cp div 0x40 mod 0x40, 0x80 + cp mod 0x40])"

definition hexUpper :: "nat \<Rightarrow> code_unit" where
  "hexUpper d = (if d < 10 then of_nat (48 + d) else of_nat (55 + d))"

definition escapeOctet :: "nat \<Rightarrow> jsstring" where
  "escapeOctet b = [0x25, hexUpper (b div 16), hexUpper (b mod 16)]"

definition escapeCodePoint :: "nat \<Rightarrow> jsstring" where
  "escapeCodePoint cp = concat (map escapeOctet (utf8 cp))"

definition isAlnum :: "code_unit \<Rightarrow> bool" where
  "isAlnum c =
     ((0x41 \<le> unat c \<and> unat c \<le> 0x5A) \<or> (0x61 \<le> unat c \<and> unat c \<le> 0x7A)
      \<or> (0x30 \<le> unat c \<and> unat c \<le> 0x39))"

text \<open>The unescaped set of \<open>encodeURIComponent\<close>: \<open>A-Z a-z 0-9 - _ . ! ~ * ' ( )\<close>.\<close>

definition uriUnescaped :: "code_unit \<Rightarrow> bool" where
  "uriUnescaped c = (isAlnum c \<or> c \<in> set (str ''-_.!~*'' @ [0x27] @ str ''()''))"

fun Encode :: "jsstring \<Rightarrow> error + jsstring" where
  "Encode [] = Inr []"
| "Encode (c # cs) =
     (if uriUnescaped c then
        (case Encode cs of Inl e \<Rightarrow> Inl e | Inr r \<Rightarrow> Inr (c # r))
      else if isLeadSurrogate c then
        (case cs of
           [] \<Rightarrow> Inl URIError
         | d # ds \<Rightarrow>
             if isTrailSurrogate d then
               (case Encode ds of
                  Inl e \<Rightarrow> Inl e
                | Inr r \<Rightarrow> Inr (escapeCodePoint (surrogatePair c d) @ r))
             else Inl URIError)
      else if isTrailSurrogate c then Inl URIError
      else
        (case Encode cs of
           Inl e \<Rightarrow> Inl e
         | Inr r \<Rightarrow> Inr (escapeCodePoint (unat c) @ r)))"

definition encodeURIComponentRFC2396 :: "jsval \<Rightarrow> error + jsstring" where
  "encodeURIComponentRFC2396 uriComponent = Encode (ToString uriComponent)"

subsection \<open>\<open>encodeURIComponentRFC3986\<close>\<close>

text \<open>
  \<open>Number.prototype.toString(16)\<close> on a char code: lowercase hexadecimal digits, no padding.
\<close>

definition hexLower :: "nat \<Rightarrow> code_unit" where
  "hexLower d = (if d < 10 then of_nat (48 + d) else of_nat (87 + d))"

fun toString16 :: "nat \<Rightarrow> jsstring" where
  "toString16 n = (if n < 16 then [hexLower n] else toString16 (n div 16) @ [hexLower (n mod 16)])"

declare toString16.simps [simp del]

text \<open>The character class \<open>[!'()*]\<close> of the regular expression.\<close>

definition isMark :: "code_unit \<Rightarrow> bool" where
  "isMark c = (c \<in> set (str ''!'' @ [0x27] @ str ''()*''))"

text \<open>
  \<open>.replace(/[!'()*]/g, char => `%${char.charCodeAt().toString(16)}`)\<close>: every code unit of
  the class is replaced, the others are kept.
\<close>

definition replaceMarks :: "jsstring \<Rightarrow> jsstring" where
  "replaceMarks s = concat (map (\<lambda>char. if isMark char then 0x25 # toString16 (unat char) else [char]) s)"

definition encodeURIComponentRFC3986 :: "jsval \<Rightarrow> error + jsstring" where
  "encodeURIComponentRFC3986 uriComponent =
     (case encodeURIComponentRFC2396 uriComponent of
        Inl e \<Rightarrow> Inl e
      | Inr s \<Rightarrow> Inr (replaceMarks s))"

text \<open>The unreserved set named in the source's comment: \<open>A-Z a-z 0-9 - _ . ~\<close>.\<close>

definition isUnreserved :: "code_unit \<Rightarrow> bool" where
  "isUnreserved c = (isAlnum c \<or> c \<in> set (str ''-_.~''))"

text \<open>
  \<open>String.prototype.isWellFormed\<close>: no unpaired surrogate.
\<close>

fun isWellFormed :: "jsstring \<Rightarrow> bool" where
  "isWellFormed [] = True"
| "isWellFormed (c # cs) =
     (if isLeadSurrogate c then
        (case cs of [] \<Rightarrow> False | d # ds \<Rightarrow> isTrailSurrogate d \<and> isWellFormed ds)
      else \<not> isTrailSurrogate c \<and> isWellFormed cs)"

text \<open>
  The shape of an encoded string: single unreserved code units and escapes, each a \<open>%\<close> with
  two hexadecimal digits.
\<close>

definition isHexDigit :: "code_unit \<Rightarrow> bool" where
  "isHexDigit c =
     ((0x30 \<le> unat c \<and> unat c \<le> 0x39) \<or> (0x41 \<le> unat c \<and> unat c \<le> 0x46)
      \<or> (0x61 \<le> unat c \<and> unat c \<le> 0x66))"

fun wellEscaped :: "jsstring \<Rightarrow> bool" where
  "wellEscaped [] = True"
| "wellEscaped (c # cs) =
     (if c = 0x25 then
        (case cs of
           h1 # h2 # rest \<Rightarrow> isHexDigit h1 \<and> isHexDigit h2 \<and> wellEscaped rest
         | _ \<Rightarrow> False)
      else isUnreserved c \<and> wellEscaped cs)"

text \<open>Concatenation of two results, the first exception winning.\<close>

definition appendE :: "error + jsstring \<Rightarrow> error + jsstring \<Rightarrow> error + jsstring" where
  "appendE a b =
     (case a of
        Inl e \<Rightarrow> Inl e
      | Inr x \<Rightarrow> (case b of Inl e \<Rightarrow> Inl e | Inr y \<Rightarrow> Inr (x @ y)))"

subsection \<open>The built-in \<open>decodeURIComponent\<close>\<close>

text \<open>
  The percent-decoding that undoes the encoder is the built-in \<open>decodeURIComponent\<close>, modelled
  after the abstract operation Decode of ECMA-262 with an empty set of preserved escapes:
  a code unit other than \<open>%\<close> is copied; an escape is read as an octet; an octet below
  \<open>0x80\<close> is that code unit; otherwise its leading one bits give the length of a UTF-8
  sequence, whose further octets must be escapes too and which must be the valid UTF-8
  form of a code point (not overlong, not a surrogate, at most \<open>0x10FFFF\<close>); anything else
  throws \<open>URIError\<close>.
\<close>

definition parseHexDigit :: "code_unit \<Rightarrow> nat option" where
  "parseHexDigit c =
     (if 0x30 \<le> unat c \<and> unat c \<le> 0x39 then Some (unat c - 0x30)
      else if 0x41 \<le> unat c \<and> unat c \<le> 0x46 then Some (unat c - 0x37)
      else if 0x61 \<le> unat c \<and> unat c \<le> 0x66 then Some (unat c - 0x57)
      else None)"

definition ParseHexOctet :: "code_unit \<Rightarrow> code_unit \<Rightarrow> nat option" where
  "ParseHexOctet h1 h2 =
     (case parseHexDigit h1 of
        None \<Rightarrow> None
      | Some a \<Rightarrow> (case parseHexDigit h2 of None \<Rightarrow> None | Some b \<Rightarrow> Some (16 * a + b)))"

definition leadingOnes :: "nat \<Rightarrow> nat" where
  "leadingOnes B =
     (if B < 0x80 then 0 else if B < 0xC0 then 1 else if B < 0xE0 then 2
      else if B < 0xF0 then 3 else if B < 0xF8 then 4 else 5)"

text \<open>The next \<open>j\<close> escapes of the string, as octets.\<close>

fun continuationOctets :: "nat \<Rightarrow> jsstring \<Rightarrow> nat list option" where
  "continuationOctets 0 s = Some []"
| "continuationOctets (Suc j) (p # h1 # h2 # s) =
     (if p = 0x25 then
        (case ParseHexOctet h1 h2 of
           None \<Rightarrow> None
         | Some b \<Rightarrow> (case continuationOctets j s of None \<Rightarrow> None | Some bs \<Rightarrow> Some (b # bs)))
      else None)"
| "continuationOctets (Suc j) s = None"

definition isContinuation :: "nat \<Rightarrow> bool" where
  "isContinuation b = (0x80 \<le> b \<and> b < 0xC0)"

text \<open>The code point of a multi-octet UTF-8 sequence, if the sequence is valid.\<close>

definition utf8Decode :: "nat list \<Rightarrow> nat option" where
  "utf8Decode octets =
     (case octets of
        [b0, b1] \<Rightarrow>
          (let V = (b0 - 0xC0) * 0x40 + (b1 - 0x80)
           in if isContinuation b1 \<and> 0x80 \<le> V then Some V else None)
      | [b0, b1, b2] \<Rightarrow>
          (let V = (b0 - 0xE0) * 0x1000 + (b1 - 0x80) * 0x40 + (b2 - 0x80)
           in if isContinuation b1 \<and> isContinuation b2 \<and> 0x800 \<le> V
                 \<and> \<not> (0xD800 \<le> V \<and> V \<le> 0xDFFF)
              then Some V else None)
      | [b0, b1, b2, b3] \<Rightarrow>
          (let V = (b0 - 0xF0) * 0x40000 + (b1 - 0x80) * 0x1000 + (b2 - 0x80) * 0x40 + (b3 - 0x80)
           in if isContinuation b1 \<and> isContinuation b2 \<and> isContinuation b3
                 \<and> 0x10000 \<le> V \<and> V \<le> 0x10FFFF
              then Some V else None)
      | _ \<Rightarrow> None)"

definition UTF16EncodeCodePoint :: "nat \<Rightarrow> jsstring" where
  "UTF16EncodeCodePoint cp =
     (if cp \<le> 0xFFFF then [of_nat cp]
      else [of_nat ((cp - 0x10000) div 0x400 + 0xD800), of_nat ((cp - 0x10000) mod 0x400 + 0xDC00)])"

fun Decode :: "jsstring \<Rightarrow> error + jsstring" where
  "Decode [] = Inr []"
| "Decode (c # cs) =
     (if c \<noteq> 0x25 then
        (case Decode cs of Inl e \<Rightarrow> Inl e | Inr r \<Rightarrow> Inr (c # r))
      else
        (case cs of
           h1 # h2 # rest \<Rightarrow>
             (case ParseHexOctet h1 h2 of
                None \<Rightarrow> Inl URIError
              | Some B \<Rightarrow>
                  if leadingOnes B = 0 then
                    (case Decode rest of Inl e \<Rightarrow> Inl e | Inr r \<Rightarrow> Inr (of_nat B # r))
                  else if leadingOnes B = 1 \<or> leadingOnes B > 4 then Inl URIError
                  else
                    (case continuationOctets (leadingOnes B - 1) rest of
                       None \<Rightarrow> Inl URIError
                     | Some octets \<Rightarrow>
                         (case utf8Decode (B # octets) of
                            None \<Rightarrow> Inl URIError
                          | Some V \<Rightarrow>
                              (case Decode (drop (3 * (leadingOnes B - 1)) rest) of
                                 Inl e \<Rightarrow> Inl e
                               | Inr r \<Rightarrow> Inr (UTF16EncodeCodePoint V @ r)))))
         | _ \<Rightarrow> Inl URIError))"

definition decodeURIComponent :: "jsval \<Rightarrow> error + jsstring" where
  "decodeURIComponent encodedURIComponent = Decode (ToString encodedURIComponent)"


section \<open>The OAuth client (src/oauth.js)\<close>

text \<open>
  src/oauth.js holds the class twice. The definitions follow the first copy. The second copy
  differs in \<open>buildBody\<close>, which has no JSON branch, and in \<open>makeRequestForRequestToken\<close>,
  which also passes \<open>contentType\<close> and \<open>bodyValue\<close> on; the other functions are the same.
\<close>

text \<open>
  A parameter is a two-element array \<open>[key, value]\<close>. Both elements only ever reach
  \<open>encodePercent\<close>, which converts them with \<open>ToString\<close>.
\<close>

type_synonym param = "jsval \<times> jsval"

definition encodePercent :: "jsval \<Rightarrow> error + jsstring" where
  "encodePercent = encodeURIComponentRFC3986"

text \<open>\<open>Array.prototype.map\<close> with a callback that may throw: the first exception ends the call.\<close>

fun mapE :: "('a \<Rightarrow> error + 'b) \<Rightarrow> 'a list \<Rightarrow> error + 'b list" where
  "mapE f [] = Inr []"
| "mapE f (x # xs) =
     (case f x of
        Inl e \<Rightarrow> Inl e
      | Inr y \<Rightarrow> (case mapE f xs of Inl e \<Rightarrow> Inl e | Inr ys \<Rightarrow> Inr (y # ys)))"

text \<open>\<open>Array.prototype.join\<close> on an array of strings.\<close>

fun join :: "jsstring \<Rightarrow> jsstring list \<Rightarrow> jsstring" where
  "join sep [] = []"
| "join sep [x] = x"
| "join sep (x # y # ys) = x @ sep @ join sep (y # ys)"

text \<open>The template \<open>`${encodePercent(key)}=${encodePercent(value)}`\<close>.\<close>

definition queryPair :: "param \<Rightarrow> error + jsstring" where
  "queryPair p =
     (case encodePercent (fst p) of
        Inl e \<Rightarrow> Inl e
      | Inr k \<Rightarrow> (case encodePercent (snd p) of Inl e \<Rightarrow> Inl e | Inr v \<Rightarrow> Inr (k @ str ''='' @ v)))"

definition buildQuery :: "param list \<Rightarrow> error + jsstring" where
  "buildQuery params =
     (case mapE queryPair params of Inl e \<Rightarrow> Inl e | Inr ps \<Rightarrow> Inr (join (str ''&'') ps))"

definition buildURL :: "jsstring \<Rightarrow> param list \<Rightarrow> bool \<Rightarrow> error + jsstring" where
  "buildURL requestURL params isPost =
     (if isPost \<or> length params = 0 then Inr requestURL
      else (case buildQuery params of
              Inl e \<Rightarrow> Inl e
            | Inr q \<Rightarrow> Inr (requestURL @ str ''?'' @ q)))"

text \<open>
  The \<open>bodyValue\<close> option: a primitive value (a pre-serialised string, or nothing) or an
  array of parameters. Other objects are not modelled.
\<close>

datatype body_value = Prim jsval | ParamList "param list"

text \<open>
  What \<open>buildBody\<close> hands to the \<open>Request\<close> constructor: \<open>JSON.stringify(bodyValue)\<close> (kept
  symbolic), a query string, or \<open>bodyValue\<close> itself.
\<close>

datatype body_init = BodyJSON body_value | BodyString jsstring | BodyValue body_value

text \<open>A primitive has no \<open>map\<close> method, so \<open>buildQuery\<close> on it throws \<open>TypeError\<close>.\<close>

definition buildBody :: "body_value \<Rightarrow> jsstring \<Rightarrow> error + body_init" where
  "buildBody bodyValue contentType =
     (if str ''application/json'' = contentType then Inr (BodyJSON bodyValue)
      else if str ''application/x-www-form-urlencoded'' = contentType then
        (case bodyValue of
           Prim v \<Rightarrow> Inl TypeError
         | ParamList ps \<Rightarrow>
             (case buildQuery ps of Inl e \<Rightarrow> Inl e | Inr q \<Rightarrow> Inr (BodyString q)))
      else Inr (BodyValue bodyValue))"

text \<open>The private fields of the class. The token fields hold whatever \<open>setToken\<close> was given.\<close>

record oauth =
  consumerKey :: jsval
  consumerSecret :: jsval
  token :: jsval
  tokenSecret :: jsval

definition OAuth_type :: jsstring where
  "OAuth_type = str ''OAuth''"

definition signatureMethod :: jsstring where
  "signatureMethod = str ''HMAC-SHA1''"

definition version :: jsstring where
  "version = str ''1.0''"

definition constructor :: "jsval \<Rightarrow> jsval \<Rightarrow> oauth" where
  "constructor ck cs = \<lparr>consumerKey = ck, consumerSecret = cs, token = Str [], tokenSecret = Str []\<rparr>"

text \<open>A default parameter value applies exactly when the argument is \<open>undefined\<close>.\<close>

definition orDefault :: "jsval \<Rightarrow> jsval \<Rightarrow> jsval" where
  "orDefault v d = (if v = Undefined then d else v)"

definition setToken :: "jsval \<Rightarrow> jsval \<Rightarrow> oauth \<Rightarrow> oauth" where
  "setToken tok tokSecret this =
     this\<lparr>token := orDefault tok (Str []), tokenSecret := orDefault tokSecret (Str [])\<rparr>"

text \<open>
  What the code takes from its platform and its dependencies, none of it under src/:
  \<open>String.prototype.toUpperCase\<close>, \<open>TextEncoder.encode\<close>, HMAC-SHA1 of the Web Crypto API
  (data first, key second, as \<open>hmacSHA1\<close> takes them), the base64 and hex encoders of the
  standard library, and the parser of \<open>URLSearchParams\<close>.
\<close>

record platform =
  toUpperCase :: "jsstring \<Rightarrow> jsstring"
  textEncode :: "jsstring \<Rightarrow> 8 word list"
  hmacSHA1 :: "8 word list \<Rightarrow> 8 word list \<Rightarrow> 8 word list"
  encodeBase64 :: "8 word list \<Rightarrow> jsstring"
  stringifyHex :: "8 word list \<Rightarrow> jsstring"
  URLSearchParams :: "jsstring \<Rightarrow> (jsstring \<times> jsstring) list"

text \<open>\<open>#getNonce\<close>: \<open>random\<close> is the 16 bytes that \<open>crypto.getRandomValues\<close> wrote.\<close>

definition getNonce :: "platform \<Rightarrow> 8 word list \<Rightarrow> jsstring" where
  "getNonce P random = stringifyHex P random"

text \<open>\<open>#getTimestamp\<close>: \<open>now\<close> is \<open>Date.now()\<close>, in milliseconds.\<close>

definition getTimestamp :: "int \<Rightarrow> int" where
  "getTimestamp now = now div 1000"

subsection \<open>\<open>#getSignature\<close>\<close>

definition encodePair :: "param \<Rightarrow> error + (jsstring \<times> jsstring)" where
  "encodePair p =
     (case encodePercent (fst p) of
        Inl e \<Rightarrow> Inl e
      | Inr k \<Rightarrow> (case encodePercent (snd p) of Inl e \<Rightarrow> Inl e | Inr v \<Rightarrow> Inr (k, v)))"

text \<open>The comparator of the source; \<open><\<close> on strings compares code units lexicographically.\<close>

definition comparePairs :: "jsstring \<times> jsstring \<Rightarrow> jsstring \<times> jsstring \<Rightarrow> int" where
  "comparePairs a b =
     (if fst a < fst b then - 1
      else if fst a > fst b then 1
      else if snd a < snd b then - 1
      else if snd a > snd b then 1
      else 0)"

text \<open>
  \<open>Array.prototype.sort\<close> with a comparator: a stable sort, here by insertion.
\<close>

fun insertSorted :: "('a \<Rightarrow> 'a \<Rightarrow> int) \<Rightarrow> 'a \<Rightarrow> 'a list \<Rightarrow> 'a list" where
  "insertSorted cmp x [] = [x]"
| "insertSorted cmp x (y # ys) = (if cmp x y \<le> 0 then x # y # ys else y # insertSorted cmp x ys)"

definition sortWith :: "('a \<Rightarrow> 'a \<Rightarrow> int) \<Rightarrow> 'a list \<Rightarrow> 'a list" where
  "sortWith cmp xs = foldr (insertSorted cmp) xs []"

definition paramsString :: "param list \<Rightarrow> param list \<Rightarrow> param list \<Rightarrow> error + jsstring" where
  "paramsString params oAuthParams bodyParams =
     (case mapE encodePair (params @ oAuthParams @ bodyParams) of
        Inl e \<Rightarrow> Inl e
      | Inr ps \<Rightarrow>
          Inr (join (str ''&'') (map (\<lambda>(key, val). key @ str ''='' @ val) (sortWith comparePairs ps))))"

definition baseString :: "platform \<Rightarrow> jsstring \<Rightarrow> jsstring \<Rightarrow> jsstring \<Rightarrow> error + jsstring" where
  "baseString P method requestURL paramsStr =
     (case encodePercent (Str requestURL) of
        Inl e \<Rightarrow> Inl e
      | Inr u \<Rightarrow>
          (case encodePercent (Str paramsStr) of
             Inl e \<Rightarrow> Inl e
           | Inr p \<Rightarrow> Inr (toUpperCase P method @ str ''&'' @ u @ str ''&'' @ p)))"

definition keyString :: "oauth \<Rightarrow> error + jsstring" where
  "keyString this =
     (case encodePercent (consumerSecret this) of
        Inl e \<Rightarrow> Inl e
      | Inr c \<Rightarrow>
          (case encodePercent (tokenSecret this) of
             Inl e \<Rightarrow> Inl e
           | Inr t \<Rightarrow> Inr (c @ str ''&'' @ t)))"

text \<open>
  Spreading \<open>bodyParams\<close> into the array literal: an array gives its elements; a string gives
  its code points, each of which destructures to a key with an \<open>undefined\<close> value; any other
  primitive is not iterable.
\<close>

fun codePoints :: "jsstring \<Rightarrow> jsstring list" where
  "codePoints [] = []"
| "codePoints (c # cs) =
     (if isLeadSurrogate c then
        (case cs of
           [] \<Rightarrow> [[c]]
         | d # ds \<Rightarrow> if isTrailSurrogate d then [c, d] # codePoints ds else [c] # codePoints cs)
      else [c] # codePoints cs)"

fun spread :: "body_value \<Rightarrow> error + param list" where
  "spread (ParamList ps) = Inr ps"
| "spread (Prim (Str s)) = Inr (map (\<lambda>cp. (Str cp, Undefined)) (codePoints s))"
| "spread (Prim v) = Inl TypeError"

definition getSignature ::
  "platform \<Rightarrow> oauth \<Rightarrow> jsstring \<Rightarrow> jsstring \<Rightarrow> param list \<Rightarrow> param list \<Rightarrow> body_value
    \<Rightarrow> error + jsstring" where
  "getSignature P this method requestURL params oAuthParams bodyParams =
     (case spread bodyParams of
        Inl e \<Rightarrow> Inl e
      | Inr bps \<Rightarrow>
     (case paramsString params oAuthParams bps of
        Inl e \<Rightarrow> Inl e
      | Inr ps \<Rightarrow>
     (case baseString P method requestURL ps of
        Inl e \<Rightarrow> Inl e
      | Inr base \<Rightarrow>
     (case keyString this of
        Inl e \<Rightarrow> Inl e
      | Inr key \<Rightarrow>
          Inr (encodeBase64 P (hmacSHA1 P (textEncode P base) (textEncode P key)))))))"

subsection \<open>\<open>#getCredentials\<close>, \<open>#getAuthHeaderValue\<close>\<close>

text \<open>The template \<open>`${encodePercent(key)}="${encodePercent(value)}"`\<close>.\<close>

definition quoted :: "jsstring \<Rightarrow> jsstring" where
  "quoted v = [0x22] @ v @ [0x22]"

definition credentialPair :: "param \<Rightarrow> error + jsstring" where
  "credentialPair p =
     (case encodePercent (fst p) of
        Inl e \<Rightarrow> Inl e
      | Inr k \<Rightarrow>
          (case encodePercent (snd p) of
             Inl e \<Rightarrow> Inl e
           | Inr v \<Rightarrow> Inr (k @ str ''='' @ quoted v)))"

definition getCredentials ::
  "platform \<Rightarrow> oauth \<Rightarrow> jsstring \<Rightarrow> jsstring \<Rightarrow> param list \<Rightarrow> param list \<Rightarrow> body_value
    \<Rightarrow> error + jsstring" where
  "getCredentials P this method requestURL params oAuthParams bodyParams =
     (case getSignature P this method requestURL params oAuthParams bodyParams of
        Inl e \<Rightarrow> Inl e
      | Inr signature \<Rightarrow>
          (case mapE credentialPair (oAuthParams @ [(Str (str ''oauth_signature''), Str signature)]) of
             Inl e \<Rightarrow> Inl e
           | Inr cs \<Rightarrow> Inr (join (str '', '') cs)))"

definition getAuthHeaderValue ::
  "platform \<Rightarrow> oauth \<Rightarrow> jsstring \<Rightarrow> jsstring \<Rightarrow> param list \<Rightarrow> param list \<Rightarrow> body_value
    \<Rightarrow> error + jsstring" where
  "getAuthHeaderValue P this method requestURL params oAuthParams bodyParams =
     (case getCredentials P this method requestURL params oAuthParams bodyParams of
        Inl e \<Rightarrow> Inl e
      | Inr credentials \<Rightarrow> Inr (OAuth_type @ str '' '' @ credentials))"

subsection \<open>\<open>#makeRequest\<close>\<close>

text \<open>
  The arguments of \<open>new Request(url, {method, headers, body})\<close>; \<open>None\<close> is an \<open>undefined\<close>
  body. What the constructor itself does with them is the platform's.
\<close>

record request =
  req_url :: jsstring
  req_method :: jsstring
  req_headers :: "(string \<times> jsstring) list"
  req_body :: "body_init option"

text \<open>
  The options object of \<open>#makeRequest\<close>; \<open>None\<close> is an absent property, which takes the
  default of the destructuring pattern. An absent \<open>bodyValue\<close> is \<open>Prim Undefined\<close>.
\<close>

record options =
  opt_method :: "jsstring option"
  opt_params :: "param list option"
  opt_oAuthParams :: "param list option"
  opt_contentType :: "jsstring option"
  opt_bodyValue :: body_value

text \<open>Truthiness of a body value: an array is an object, and every object is truthy.\<close>

fun truthy :: "body_value \<Rightarrow> bool" where
  "truthy (Prim v) = ToBoolean v"
| "truthy (ParamList ps) = True"

text \<open>
  \<open>const isPost = 'POST' === method && bodyValue\<close>. The constant is only ever tested, so the
  model keeps its truth value.
\<close>

definition isPost :: "jsstring \<Rightarrow> body_value \<Rightarrow> bool" where
  "isPost method bodyValue = (str ''POST'' = method \<and> truthy bodyValue)"

definition makeRequest :: "platform \<Rightarrow> oauth \<Rightarrow> jsstring \<Rightarrow> options \<Rightarrow> error + request" where
  "makeRequest P this requestURL opts =
     (let method = (case opt_method opts of None \<Rightarrow> str ''GET'' | Some m \<Rightarrow> m);
          params = (case opt_params opts of None \<Rightarrow> [] | Some ps \<Rightarrow> ps);
          oAuthParams = (case opt_oAuthParams opts of None \<Rightarrow> [] | Some ps \<Rightarrow> ps);
          contentType = (case opt_contentType opts of
                           None \<Rightarrow> str ''application/x-www-form-urlencoded'' | Some c \<Rightarrow> c);
          bodyValue = opt_bodyValue opts;
          post = isPost method bodyValue
      in
      (case buildURL requestURL params post of
         Inl e \<Rightarrow> Inl e
       | Inr url \<Rightarrow>
           (let bodyParams =
                  (if post \<and> str ''application/x-www-form-urlencoded'' = contentType
                   then bodyValue else ParamList [])
            in
            (case getAuthHeaderValue P this method requestURL params oAuthParams bodyParams of
               Inl e \<Rightarrow> Inl e
             | Inr authorization \<Rightarrow>
                 (case (if post then map_sum id Some (buildBody bodyValue contentType) else Inr None) of
                    Inl e \<Rightarrow> Inl e
                  | Inr body \<Rightarrow>
                      Inr \<lparr>req_url = url,
                           req_method = method,
                           req_headers =
                             (''Authorization'', authorization)
                             # (if post then [(''Content-Type'', contentType)] else []),
                           req_body = body\<rparr>)))))"

subsection \<open>The public methods\<close>

text \<open>
  A method that changes the token returns its result together with the client afterwards, so
  that what a throwing call leaves behind is part of the model. An omitted option is \<open>None\<close>
  (or \<open>Undefined\<close> for \<open>callbackURL\<close>).
\<close>

text \<open>The array \<open>oAuthParams\<close> of \<open>makeRequestForRequestToken\<close>.\<close>

definition requestTokenOAuthParams ::
  "platform \<Rightarrow> 8 word list \<Rightarrow> int \<Rightarrow> oauth \<Rightarrow> jsval \<Rightarrow> param list" where
  "requestTokenOAuthParams P random now this callbackURL =
     [(Str (str ''oauth_callback''), callbackURL),
      (Str (str ''oauth_consumer_key''), consumerKey this),
      (Str (str ''oauth_nonce''), Str (getNonce P random)),
      (Str (str ''oauth_signature_method''), Str signatureMethod),
      (Str (str ''oauth_timestamp''), Num (getTimestamp now)),
      (Str (str ''oauth_version''), Str version)]"

definition makeRequestForRequestToken ::
  "platform \<Rightarrow> 8 word list \<Rightarrow> int \<Rightarrow> oauth \<Rightarrow> jsstring \<Rightarrow> jsstring option \<Rightarrow> param list option \<Rightarrow> jsval
    \<Rightarrow> (error + request) \<times> oauth" where
  "makeRequestForRequestToken P random now this0 requestTokenURL methodOpt paramsOpt callbackOpt =
     (let method = (case methodOpt of None \<Rightarrow> str ''POST'' | Some m \<Rightarrow> m);
          params = (case paramsOpt of None \<Rightarrow> [] | Some ps \<Rightarrow> ps);
          callbackURL = orDefault callbackOpt (Str (str ''oob''));
          this = setToken Undefined Undefined this0;
          oAuthParams = requestTokenOAuthParams P random now this callbackURL
      in
      (makeRequest P this requestTokenURL
         \<lparr>opt_method = Some method, opt_params = Some params, opt_oAuthParams = Some oAuthParams,
          opt_contentType = None, opt_bodyValue = Prim Undefined\<rparr>,
       this))"

text \<open>
  A response: its \<open>ok\<close> flag and the text that \<open>await response.text()\<close> resolves to.
  Reading the body is the work of the HTTP transport, which is outside the client.
\<close>

record response =
  resp_ok :: bool
  resp_text :: jsstring

text \<open>\<open>URLSearchParams.prototype.get\<close>: the first value under the name, or \<open>null\<close>.\<close>

definition get :: "(jsstring \<times> jsstring) list \<Rightarrow> jsstring \<Rightarrow> jsval" where
  "get params name = (case map_of params name of None \<Rightarrow> Null | Some v \<Rightarrow> Str v)"

definition getRequestTokenParamsFrom ::
  "platform \<Rightarrow> oauth \<Rightarrow> response \<Rightarrow> (error + (jsstring \<times> jsstring) list) \<times> oauth" where
  "getRequestTokenParamsFrom P this response =
     (if \<not> resp_ok response then (Inl (OAuthError ''Failed to get request token''), this)
      else
        (let text = resp_text response;
             params = URLSearchParams P text
         in
         if \<not> ToBoolean (get params (str ''oauth_callback_confirmed''))
         then (Inl (OAuthError ''Unconfirmed callback''), this)
         else
           (Inr params,
            setToken (get params (str ''oauth_token''))
              (get params (str ''oauth_token_secret'')) this)))"

definition makeRequestForAccessToken ::
  "platform \<Rightarrow> 8 word list \<Rightarrow> int \<Rightarrow> oauth \<Rightarrow> jsstring \<Rightarrow> jsval \<Rightarrow> jsstring option \<Rightarrow> error + request" where
  "makeRequestForAccessToken P random now this accessTokenURL verifier methodOpt =
     (let method = (case methodOpt of None \<Rightarrow> str ''POST'' | Some m \<Rightarrow> m);
          oAuthParams =
            [(Str (str ''oauth_consumer_key''), consumerKey this),
             (Str (str ''oauth_nonce''), Str (getNonce P random)),
             (Str (str ''oauth_signature_method''), Str signatureMethod),
             (Str (str ''oauth_timestamp''), Num (getTimestamp now)),
             (Str (str ''oauth_token''), token this),
             (Str (str ''oauth_verifier''), verifier),
             (Str (str ''oauth_version''), Str version)]
      in
      makeRequest P this accessTokenURL
        \<lparr>opt_method = Some method, opt_params = None, opt_oAuthParams = Some oAuthParams,
         opt_contentType = None, opt_bodyValue = Prim Undefined\<rparr>)"

definition getAccessTokenParamsFrom ::
  "platform \<Rightarrow> oauth \<Rightarrow> response \<Rightarrow> (error + (jsstring \<times> jsstring) list) \<times> oauth" where
  "getAccessTokenParamsFrom P this response =
     (if \<not> resp_ok response then (Inl (OAuthError ''Failed to get access token''), this)
      else
        (let text = resp_text response;
             params = URLSearchParams P text
         in
         (Inr params,
          setToken (get params (str ''oauth_token''))
            (get params (str ''oauth_token_secret'')) this)))"


subsection \<open>A platform to evaluate the model with\<close>

text \<open>
  An instance of the platform for evaluating the model at concrete inputs. Upper-casing,
  \<open>TextEncoder\<close> and the hex encoder are the real ones on ASCII; the parser splits bodies of
  the form \<open>k=v&k=v\<close> that have no escapes. HMAC-SHA1 and base64 are not computed: the
  signature is a fixed string.
\<close>

definition asciiUpper :: "code_unit \<Rightarrow> code_unit" where
  "asciiUpper c = (if 0x61 \<le> unat c \<and> unat c \<le> 0x7A then c - 0x20 else c)"

fun splitOn :: "code_unit \<Rightarrow> jsstring \<Rightarrow> jsstring list" where
  "splitOn sep [] = [[]]"
| "splitOn sep (c # cs) =
     (if c = sep then [] # splitOn sep cs
      else (case splitOn sep cs of [] \<Rightarrow> [[c]] | r # rs \<Rightarrow> (c # r) # rs))"

definition splitPairs :: "jsstring \<Rightarrow> (jsstring \<times> jsstring) list" where
  "splitPairs text =
     map (\<lambda>seg. (takeWhile (\<lambda>c. c \<noteq> 0x3D) seg, drop 1 (dropWhile (\<lambda>c. c \<noteq> 0x3D) seg)))
       (filter (\<lambda>seg. seg \<noteq> []) (splitOn 0x26 text))"

definition testPlatform :: platform where
  "testPlatform =
     \<lparr>toUpperCase = map asciiUpper,
      textEncode = map (\<lambda>c. of_nat (unat c)),
      hmacSHA1 = (\<lambda>data key. []),
      encodeBase64 = (\<lambda>bytes. str ''c2ln+/Y='' ),
      stringifyHex = (\<lambda>bytes. concat (map (\<lambda>b. [hexLower (unat b div 16), hexLower (unat b mod 16)]) bytes)),
      URLSearchParams = splitPairs\<rparr>"


section \<open>Properties of the percent-encoder\<close>


lemma str_Nil [simp]: "str [] = []"
  by (simp add: str_def)

lemma str_Cons [simp]: "str (c # cs) = of_char c # str cs"
  by (simp add: str_def)

lemma uriUnescaped_iff: "uriUnescaped c \<longleftrightarrow> isUnreserved c \<or> isMark c"
  by (auto simp: uriUnescaped_def isUnreserved_def isMark_def)

lemma isAlnum_bound: "isAlnum c \<Longrightarrow> 0x30 \<le> unat c \<and> unat c \<le> 0x7A"
  by (auto simp: isAlnum_def)

lemma isMark_cases: "isMark c \<longleftrightarrow> c = 0x21 \<or> c = 0x27 \<or> c = 0x28 \<or> c = 0x29 \<or> c = 0x2A"
  by (auto simp: isMark_def)

lemma isUnreserved_bound: "isUnreserved c \<Longrightarrow> 0x2D \<le> unat c \<and> unat c \<le> 0x7E"
  by (auto simp: isUnreserved_def dest: isAlnum_bound)

lemma uriUnescaped_bound: "uriUnescaped c \<Longrightarrow> 0x21 \<le> unat c \<and> unat c \<le> 0x7E"
  by (auto simp: uriUnescaped_iff isMark_cases dest: isUnreserved_bound)

lemma uriUnescaped_not_surrogate:
  "uriUnescaped c \<Longrightarrow> \<not> isLeadSurrogate c \<and> \<not> isTrailSurrogate c"
  by (auto simp: isLeadSurrogate_def isTrailSurrogate_def dest: uriUnescaped_bound)

lemma not_percent_unescaped: "\<not> uriUnescaped 0x25"
  by (simp add: uriUnescaped_def isAlnum_def)


lemma appendE_simps [simp]:
  "appendE (Inl e) b = Inl e"
  "appendE (Inr x) (Inl e) = Inl e"
  "appendE (Inr x) (Inr y) = Inr (x @ y)"
  by (simp_all add: appendE_def)

lemma Encode_unescaped:
  "uriUnescaped c \<Longrightarrow> Encode (c # cs) = appendE (Inr [c]) (Encode cs)"
  by (cases "Encode cs") simp_all

lemma lead_not_unescaped: "isLeadSurrogate c \<Longrightarrow> \<not> uriUnescaped c"
  using uriUnescaped_not_surrogate by blast

lemma trail_not_unescaped: "isTrailSurrogate c \<Longrightarrow> \<not> uriUnescaped c"
  using uriUnescaped_not_surrogate by blast

lemma trail_not_lead: "isTrailSurrogate c \<Longrightarrow> \<not> isLeadSurrogate c"
  by (simp add: isLeadSurrogate_def isTrailSurrogate_def)

lemma Encode_pair:
  "isLeadSurrogate c \<Longrightarrow> isTrailSurrogate d \<Longrightarrow>
   Encode (c # d # ds) = appendE (Inr (escapeCodePoint (surrogatePair c d))) (Encode ds)"
  by (cases "Encode ds") (simp_all add: lead_not_unescaped)

lemma Encode_lone_lead:
  "isLeadSurrogate c \<Longrightarrow> (case cs of [] \<Rightarrow> True | d # ds \<Rightarrow> \<not> isTrailSurrogate d) \<Longrightarrow>
   Encode (c # cs) = Inl URIError"
  by (simp add: lead_not_unescaped split: list.splits)

lemma Encode_lone_trail:
  "isTrailSurrogate c \<Longrightarrow> Encode (c # cs) = Inl URIError"
  by (simp add: trail_not_unescaped trail_not_lead)

lemma Encode_other:
  "\<not> uriUnescaped c \<Longrightarrow> \<not> isLeadSurrogate c \<Longrightarrow> \<not> isTrailSurrogate c \<Longrightarrow>
   Encode (c # cs) = appendE (Inr (escapeCodePoint (unat c))) (Encode cs)"
  by (cases "Encode cs") simp_all

declare Encode.simps(2) [simp del]

lemma Encode_induct [case_names Nil unescaped pair lone_lead lone_trail other]:
  assumes "P []"
    and "\<And>c cs. uriUnescaped c \<Longrightarrow> P cs \<Longrightarrow> P (c # cs)"
    and "\<And>c d ds. isLeadSurrogate c \<Longrightarrow> isTrailSurrogate d \<Longrightarrow> P ds \<Longrightarrow> P (c # d # ds)"
    and "\<And>c cs. isLeadSurrogate c \<Longrightarrow> (case cs of [] \<Rightarrow> True | d # ds \<Rightarrow> \<not> isTrailSurrogate d)
           \<Longrightarrow> P (c # cs)"
    and "\<And>c cs. isTrailSurrogate c \<Longrightarrow> P (c # cs)"
    and "\<And>c cs. \<not> uriUnescaped c \<Longrightarrow> \<not> isLeadSurrogate c \<Longrightarrow> \<not> isTrailSurrogate c \<Longrightarrow> P cs
           \<Longrightarrow> P (c # cs)"
  shows "P s"
proof (induction s rule: Encode.induct)
  case 1
  show ?case by (rule assms(1))
next
  case (2 c cs)
  show ?case
  proof (cases "uriUnescaped c")
    case True
    with 2(1) assms(2) show ?thesis by blast
  next
    case nu: False
    show ?thesis
    proof (cases "isLeadSurrogate c")
      case l: True
      show ?thesis
      proof (cases cs)
        case Nil
        with l assms(4) [of c cs] show ?thesis by simp
      next
        case (Cons d ds)
        show ?thesis
        proof (cases "isTrailSurrogate d")
          case t: True
          from 2(2) [OF nu l Cons t] assms(3) [OF l t] Cons show ?thesis by simp
        next
          case False
          with l Cons assms(4) [of c cs] show ?thesis by simp
        qed
      qed
    next
      case nl: False
      show ?thesis
      proof (cases "isTrailSurrogate c")
        case True
        then show ?thesis by (rule assms(5))
      next
        case False
        show ?thesis by (rule assms(6) [OF nu nl False 2(3) [OF nu nl False]])
      qed
    qed
  qed
qed

lemma Encode_Inl: "Encode s = Inl e \<Longrightarrow> e = URIError"
proof (induction s rule: Encode_induct)
  case (unescaped c cs)
  then show ?case by (cases "Encode cs") (simp_all add: Encode_unescaped)
next
  case (pair c d ds)
  then show ?case by (cases "Encode ds") (simp_all add: Encode_pair)
next
  case (other c cs)
  then show ?case by (cases "Encode cs") (simp_all add: Encode_other)
qed (simp_all add: Encode_lone_lead Encode_lone_trail)

lemma Encode_isWellFormed: "(\<exists>t. Encode s = Inr t) \<longleftrightarrow> isWellFormed s"
proof (induction s rule: Encode_induct)
  case (unescaped c cs)
  then show ?case
    by (cases "Encode cs") (simp_all add: Encode_unescaped uriUnescaped_not_surrogate)
next
  case (pair c d ds)
  then show ?case by (cases "Encode ds") (simp_all add: Encode_pair)
next
  case (lone_lead c cs)
  then show ?case by (cases cs) (simp_all add: Encode_lone_lead)
next
  case (lone_trail c cs)
  then show ?case by (simp add: Encode_lone_trail trail_not_lead)
next
  case (other c cs)
  then show ?case by (cases "Encode cs") (simp_all add: Encode_other)
qed simp

lemma Encode_not_wellFormed: "\<not> isWellFormed s \<Longrightarrow> Encode s = Inl URIError"
  using Encode_isWellFormed [of s] Encode_Inl [of s] by (cases "Encode s") auto

lemma unat_of_nat16: "n < 65536 \<Longrightarrow> unat (of_nat n :: 16 word) = n"
  by (simp add: unat_of_nat)

lemma of_nat_unat16: "of_nat (unat (c :: 16 word)) = c"
  by simp

lemma unat_hexUpper: "d < 16 \<Longrightarrow> unat (hexUpper d) = (if d < 10 then 48 + d else 55 + d)"
  using unat_of_nat16 [of "48 + d"] unat_of_nat16 [of "55 + d"] by (simp add: hexUpper_def)

lemma parseHexDigit_hexUpper: "d < 16 \<Longrightarrow> parseHexDigit (hexUpper d) = Some d"
  by (simp add: parseHexDigit_def unat_hexUpper)

lemma isHexDigit_hexUpper: "d < 16 \<Longrightarrow> isHexDigit (hexUpper d)"
  by (simp add: isHexDigit_def unat_hexUpper)

lemma hexUpper_not_mark: "d < 16 \<Longrightarrow> \<not> isMark (hexUpper d)"
  by (auto simp: isMark_cases word_unat_eq_iff unat_hexUpper split: if_splits)

lemma ParseHexOctet_escape:
  "b < 256 \<Longrightarrow> ParseHexOctet (hexUpper (b div 16)) (hexUpper (b mod 16)) = Some b"
  by (simp add: ParseHexOctet_def parseHexDigit_hexUpper)

lemma percent_not_mark: "\<not> isMark 0x25"
  by (simp add: isMark_cases)

lemma replaceMarks_Nil [simp]: "replaceMarks [] = []"
  by (simp add: replaceMarks_def)

lemma replaceMarks_Cons:
  "replaceMarks (c # cs) = (if isMark c then 0x25 # toString16 (unat c) else [c]) @ replaceMarks cs"
  by (simp add: replaceMarks_def)

lemma replaceMarks_append [simp]: "replaceMarks (a @ b) = replaceMarks a @ replaceMarks b"
  by (simp add: replaceMarks_def)

lemma replaceMarks_escapeOctet: "b < 256 \<Longrightarrow> replaceMarks (escapeOctet b) = escapeOctet b"
  by (simp add: escapeOctet_def replaceMarks_Cons percent_not_mark hexUpper_not_mark)

lemma utf8_octets: "cp < 0x200000 \<Longrightarrow> \<forall>b \<in> set (utf8 cp). b < 256"
  unfolding utf8_def by (simp; arith)

lemma replaceMarks_octets:
  "\<forall>b \<in> set bs. b < 256 \<Longrightarrow> replaceMarks (concat (map escapeOctet bs)) = concat (map escapeOctet bs)"
  by (induction bs) (simp_all add: replaceMarks_escapeOctet)

lemma replaceMarks_escapeCodePoint:
  "cp < 0x200000 \<Longrightarrow> replaceMarks (escapeCodePoint cp) = escapeCodePoint cp"
  unfolding escapeCodePoint_def by (rule replaceMarks_octets) (rule utf8_octets)


declare Decode.simps(2) [simp del]

lemma escapeOctet_append:
  "escapeOctet b @ r = 0x25 # hexUpper (b div 16) # hexUpper (b mod 16) # r"
  by (simp add: escapeOctet_def)

lemma wellEscaped_escapeOctet: "b < 256 \<Longrightarrow> wellEscaped (escapeOctet b @ r) = wellEscaped r"
  by (simp add: escapeOctet_append isHexDigit_hexUpper)

lemma wellEscaped_octets:
  "\<forall>b \<in> set bs. b < 256 \<Longrightarrow> wellEscaped (concat (map escapeOctet bs) @ r) = wellEscaped r"
  by (induction bs) (simp_all add: wellEscaped_escapeOctet)

lemma wellEscaped_escapeCodePoint:
  "cp < 0x200000 \<Longrightarrow> wellEscaped (escapeCodePoint cp @ r) = wellEscaped r"
  unfolding escapeCodePoint_def by (rule wellEscaped_octets) (rule utf8_octets)

lemma toString16_marks:
  "toString16 0x21 = str ''21''" "toString16 0x27 = str ''27''" "toString16 0x28 = str ''28''"
  "toString16 0x29 = str ''29''" "toString16 0x2A = str ''2a''"
  by (simp_all add: toString16.simps [of 2] toString16.simps [of "numeral k" for k] hexLower_def)

lemma mark_escape:
  "isMark c \<Longrightarrow> 0x25 # toString16 (unat c) \<in>
     {str ''%21'', str ''%27'', str ''%28'', str ''%29'', str ''%2a''}"
  by (auto simp: isMark_cases toString16_marks)

lemma wellEscaped_mark:
  "isMark c \<Longrightarrow> wellEscaped ((0x25 # toString16 (unat c)) @ r) = wellEscaped r"
  by (auto simp: isMark_cases toString16_marks isHexDigit_def)

lemma unreserved_not_percent: "isUnreserved c \<Longrightarrow> c \<noteq> 0x25"
  using isUnreserved_bound [of c] by auto

lemma percent_not_unreserved: "\<not> isUnreserved 0x25"
  using unreserved_not_percent by blast

lemma surrogatePair_bounds:
  "isLeadSurrogate c \<Longrightarrow> isTrailSurrogate d \<Longrightarrow>
   0x10000 \<le> surrogatePair c d \<and> surrogatePair c d \<le> 0x10FFFF"
  unfolding isLeadSurrogate_def isTrailSurrogate_def surrogatePair_def by arith

lemma unat16_bound: "unat (c :: 16 word) < 65536"
  using unsigned_less [of c, where ?'a = nat] by simp

lemma Encode_wellEscaped: "Encode s = Inr t \<Longrightarrow> wellEscaped (replaceMarks t)"
proof (induction s arbitrary: t rule: Encode_induct)
  case (unescaped c cs)
  then obtain r where r: "Encode cs = Inr r" "t = c # r"
    by (cases "Encode cs") (auto simp: Encode_unescaped)
  from unescaped(2) [OF r(1)] unescaped(1) r(2) show ?case
    using wellEscaped_mark [of c "replaceMarks r"]
    by (auto simp: replaceMarks_Cons uriUnescaped_iff percent_not_unreserved)
next
  case (pair c d ds)
  then obtain r where r: "Encode ds = Inr r" "t = escapeCodePoint (surrogatePair c d) @ r"
    by (cases "Encode ds") (auto simp: Encode_pair)
  from surrogatePair_bounds [OF pair(1,2)] have "surrogatePair c d < 0x200000" by simp
  with pair(3) [OF r(1)] r(2) show ?case
    by (simp add: replaceMarks_escapeCodePoint wellEscaped_escapeCodePoint)
next
  case (other c cs)
  then obtain r where r: "Encode cs = Inr r" "t = escapeCodePoint (unat c) @ r"
    by (cases "Encode cs") (auto simp: Encode_other)
  from unat16_bound [of c] have "unat c < 0x200000" by simp
  with other(4) [OF r(1)] r(2) show ?case
    by (simp add: replaceMarks_escapeCodePoint wellEscaped_escapeCodePoint)
qed (simp_all add: Encode_lone_lead Encode_lone_trail)

lemma Encode_append:
  "\<not> isTrailSurrogate c \<Longrightarrow> Encode (xs @ c # ys) = appendE (Encode xs) (Encode (c # ys))"
proof (induction xs rule: Encode_induct)
  case Nil
  show ?case by (cases "Encode (c # ys)") simp_all
next
  case (unescaped a as)
  then show ?case
    by (cases "Encode as"; cases "Encode (c # ys)") (simp_all add: Encode_unescaped)
next
  case (pair a d ds)
  then show ?case
    by (cases "Encode ds"; cases "Encode (c # ys)") (simp_all add: Encode_pair)
next
  case (lone_lead a as)
  then show ?case by (cases as) (simp_all add: Encode_lone_lead)
next
  case (lone_trail a as)
  then show ?case by (simp add: Encode_lone_trail)
next
  case (other a as)
  then show ?case
    by (cases "Encode as"; cases "Encode (c # ys)") (simp_all add: Encode_other)
qed


lemma Decode_copy: "c \<noteq> 0x25 \<Longrightarrow> Decode (c # cs) = appendE (Inr [c]) (Decode cs)"
  by (cases "Decode cs") (simp_all add: Decode.simps(2))

lemma Decode_escape_ascii:
  "ParseHexOctet h1 h2 = Some B \<Longrightarrow> B < 0x80 \<Longrightarrow>
   Decode (0x25 # h1 # h2 # r) = appendE (Inr [of_nat B]) (Decode r)"
  by (cases "Decode r") (simp_all add: Decode.simps(2) leadingOnes_def)

lemma Decode_escape_multi:
  "ParseHexOctet h1 h2 = Some B \<Longrightarrow> 2 \<le> leadingOnes B \<Longrightarrow> leadingOnes B \<le> 4 \<Longrightarrow>
   continuationOctets (leadingOnes B - 1) r = Some octets \<Longrightarrow> utf8Decode (B # octets) = Some V \<Longrightarrow>
   Decode (0x25 # h1 # h2 # r) =
     appendE (Inr (UTF16EncodeCodePoint V)) (Decode (drop (3 * (leadingOnes B - 1)) r))"
  by (cases "Decode (drop (3 * (leadingOnes B - 1)) r)") (simp_all add: Decode.simps(2))

lemma continuationOctets_escapes:
  "\<forall>b \<in> set bs. b < 256 \<Longrightarrow>
   continuationOctets (length bs) (concat (map escapeOctet bs) @ r) = Some bs"
  by (induction bs) (simp_all add: escapeOctet_append ParseHexOctet_escape)

lemma drop_escapes: "drop (3 * length bs) (concat (map escapeOctet bs) @ r) = r"
proof -
  have "length (concat (map escapeOctet bs)) = 3 * length bs"
    by (induction bs) (simp_all add: escapeOctet_def)
  then show ?thesis by simp
qed

lemma Decode_octets:
  assumes "B < 256" "\<forall>b \<in> set bs. b < 256" "leadingOnes B = Suc (length bs)" "bs \<noteq> []"
    "length bs \<le> 3" "utf8Decode (B # bs) = Some V"
  shows "Decode (concat (map escapeOctet (B # bs)) @ r) = appendE (Inr (UTF16EncodeCodePoint V)) (Decode r)"
proof -
  have p: "ParseHexOctet (hexUpper (B div 16)) (hexUpper (B mod 16)) = Some B"
    using assms(1) by (rule ParseHexOctet_escape)
  have c: "continuationOctets (leadingOnes B - 1) (concat (map escapeOctet bs) @ r) = Some bs"
    using continuationOctets_escapes [OF assms(2)] assms(3) by simp
  have l: "2 \<le> leadingOnes B" "leadingOnes B \<le> 4"
    using assms(3,4,5) by (cases bs; simp)+
  from Decode_escape_multi [OF p l c assms(6)] drop_escapes [of bs r] assms(3)
  show ?thesis by (simp add: escapeOctet_append)
qed

lemma Decode_escapeCodePoint_ascii:
  assumes "cp < 0x80"
  shows "Decode (escapeCodePoint cp @ r) = appendE (Inr [of_nat cp]) (Decode r)"
proof -
  have "ParseHexOctet (hexUpper (cp div 16)) (hexUpper (cp mod 16)) = Some cp"
    using assms by (intro ParseHexOctet_escape) simp
  from Decode_escape_ascii [OF this assms] assms show ?thesis
    by (simp add: escapeCodePoint_def utf8_def escapeOctet_append)
qed


lemma utf8Decode_2:
  "isContinuation b1 \<Longrightarrow> 0x80 \<le> (b0 - 0xC0) * 0x40 + (b1 - 0x80) \<Longrightarrow>
   utf8Decode [b0, b1] = Some ((b0 - 0xC0) * 0x40 + (b1 - 0x80))"
  by (simp add: utf8Decode_def)

lemma utf8_2:
  assumes "0x80 \<le> cp" "cp < 0x800"
  shows "utf8 cp = [0xC0 + cp div 0x40, 0x80 + cp mod 0x40]"
    and "leadingOnes (0xC0 + cp div 0x40) = 2"
    and "utf8Decode [0xC0 + cp div 0x40, 0x80 + cp mod 0x40] = Some cp"
proof -
  define A where "A = cp div 0x40"
  define B where "B = cp mod 0x40"
  have e: "A * 0x40 + B = cp" by (simp add: A_def B_def)
  have b: "B < 0x40" by (simp add: B_def)
  have a: "A < 0x20" using assms(2) by (simp add: A_def div_less_iff_less_mult)
  show "utf8 cp = [0xC0 + cp div 0x40, 0x80 + cp mod 0x40]"
    using assms by (simp add: utf8_def)
  show "leadingOnes (0xC0 + cp div 0x40) = 2"
    using a unfolding A_def [symmetric] by (simp add: leadingOnes_def)
  have "utf8Decode [0xC0 + A, 0x80 + B] = Some cp"
    using b e assms(1) by (simp add: utf8Decode_def isContinuation_def)
  then show "utf8Decode [0xC0 + cp div 0x40, 0x80 + cp mod 0x40] = Some cp"
    by (simp add: A_def B_def)
qed


lemma utf8_3:
  assumes "0x800 \<le> cp" "cp < 0x10000" "\<not> (0xD800 \<le> cp \<and> cp \<le> 0xDFFF)"
  shows "utf8 cp = [0xE0 + cp div 0x1000, 0x80 + cp div 0x40 mod 0x40, 0x80 + cp mod 0x40]"
    and "leadingOnes (0xE0 + cp div 0x1000) = 3"
    and "utf8Decode [0xE0 + cp div 0x1000, 0x80 + cp div 0x40 mod 0x40, 0x80 + cp mod 0x40] = Some cp"
proof -
  define A where "A = cp div 0x1000"
  define B where "B = cp div 0x40 mod 0x40"
  define C where "C = cp mod 0x40"
  define Q where "Q = cp div 0x40"
  have "Q * 0x40 + C = cp" by (simp add: Q_def C_def)
  moreover have "Q div 0x40 * 0x40 + B = Q" by (simp add: Q_def B_def)
  moreover have "Q div 0x40 = A" by (simp add: Q_def A_def div_mult2_eq [symmetric])
  ultimately have e: "A * 0x1000 + B * 0x40 + C = cp" by simp
  have b: "B < 0x40" "C < 0x40" by (simp_all add: B_def C_def)
  have a: "A < 0x10" using assms(2) by (simp add: A_def div_less_iff_less_mult)
  show "utf8 cp = [0xE0 + cp div 0x1000, 0x80 + cp div 0x40 mod 0x40, 0x80 + cp mod 0x40]"
    using assms by (simp add: utf8_def)
  show "leadingOnes (0xE0 + cp div 0x1000) = 3"
    using a unfolding A_def [symmetric] by (simp add: leadingOnes_def)
  have "utf8Decode [0xE0 + A, 0x80 + B, 0x80 + C] = Some cp"
    using b e assms by (simp add: utf8Decode_def isContinuation_def)
  then show
    "utf8Decode [0xE0 + cp div 0x1000, 0x80 + cp div 0x40 mod 0x40, 0x80 + cp mod 0x40] = Some cp"
    by (simp add: A_def B_def C_def)
qed

lemma utf8_4:
  assumes "0x10000 \<le> cp" "cp \<le> 0x10FFFF"
  shows "utf8 cp = [0xF0 + cp div 0x40000, 0x80 + cp div 0x1000 mod 0x40,
                    0x80 + cp div 0x40 mod 0x40, 0x80 + cp mod 0x40]"
    and "leadingOnes (0xF0 + cp div 0x40000) = 4"
    and "utf8Decode [0xF0 + cp div 0x40000, 0x80 + cp div 0x1000 mod 0x40,
                     0x80 + cp div 0x40 mod 0x40, 0x80 + cp mod 0x40] = Some cp"
proof -
  define A where "A = cp div 0x40000"
  define B where "B = cp div 0x1000 mod 0x40"
  define C where "C = cp div 0x40 mod 0x40"
  define D where "D = cp mod 0x40"
  define Q where "Q = cp div 0x40"
  define R where "R = cp div 0x1000"
  have "Q * 0x40 + D = cp" by (simp add: Q_def D_def)
  moreover have "Q div 0x40 * 0x40 + C = Q" by (simp add: Q_def C_def)
  moreover have "Q div 0x40 = R" by (simp add: Q_def R_def div_mult2_eq [symmetric])
  moreover have "R div 0x40 * 0x40 + B = R" by (simp add: R_def B_def)
  moreover have "R div 0x40 = A" by (simp add: R_def A_def div_mult2_eq [symmetric])
  ultimately have e: "A * 0x40000 + B * 0x1000 + C * 0x40 + D = cp" by simp
  have b: "B < 0x40" "C < 0x40" "D < 0x40" by (simp_all add: B_def C_def D_def)
  have a: "A < 0x8" using assms(2) by (simp add: A_def div_less_iff_less_mult)
  show "utf8 cp = [0xF0 + cp div 0x40000, 0x80 + cp div 0x1000 mod 0x40,
                    0x80 + cp div 0x40 mod 0x40, 0x80 + cp mod 0x40]"
    using assms by (simp add: utf8_def)
  show "leadingOnes (0xF0 + cp div 0x40000) = 4"
    using a unfolding A_def [symmetric] by (simp add: leadingOnes_def)
  have "utf8Decode [0xF0 + A, 0x80 + B, 0x80 + C, 0x80 + D] = Some cp"
    using b e assms by (simp add: utf8Decode_def isContinuation_def)
  then show
    "utf8Decode [0xF0 + cp div 0x40000, 0x80 + cp div 0x1000 mod 0x40,
                     0x80 + cp div 0x40 mod 0x40, 0x80 + cp mod 0x40] = Some cp"
    by (simp add: A_def B_def C_def D_def)
qed


lemma UTF16Encode_ascii: "cp < 0x80 \<Longrightarrow> UTF16EncodeCodePoint cp = [of_nat cp]"
  by (simp add: UTF16EncodeCodePoint_def)

lemma Decode_escapeCodePoint:
  assumes "cp \<le> 0x10FFFF" "\<not> (0xD800 \<le> cp \<and> cp \<le> 0xDFFF)"
  shows "Decode (escapeCodePoint cp @ r) = appendE (Inr (UTF16EncodeCodePoint cp)) (Decode r)"
proof -
  consider (a) "cp < 0x80" | (b) "0x80 \<le> cp" "cp < 0x800" | (c) "0x800 \<le> cp" "cp < 0x10000"
    | (d) "0x10000 \<le> cp"
    by linarith
  then show ?thesis
  proof cases
    case a
    then show ?thesis by (simp add: Decode_escapeCodePoint_ascii UTF16Encode_ascii)
  next
    case b
    have o: "\<forall>x \<in> set (utf8 cp). x < 256" using b by (intro utf8_octets) simp
    from o have B: "0xC0 + cp div 0x40 < 256" "\<forall>x \<in> set [0x80 + cp mod 0x40]. x < 256"
      by (simp_all add: utf8_2(1) [OF b])
    show ?thesis
      unfolding escapeCodePoint_def utf8_2(1) [OF b]
      by (rule Decode_octets [OF B]) (simp_all add: utf8_2 [OF b])
  next
    case c
    have o: "\<forall>x \<in> set (utf8 cp). x < 256" using c by (intro utf8_octets) simp
    from o have B: "0xE0 + cp div 0x1000 < 256"
      "\<forall>x \<in> set [0x80 + cp div 0x40 mod 0x40, 0x80 + cp mod 0x40]. x < 256"
      by (simp_all add: utf8_3(1) [OF c assms(2)])
    show ?thesis
      unfolding escapeCodePoint_def utf8_3(1) [OF c assms(2)]
      by (rule Decode_octets [OF B]) (simp_all add: utf8_3 [OF c assms(2)])
  next
    case d
    have o: "\<forall>x \<in> set (utf8 cp). x < 256" using assms(1) by (intro utf8_octets) simp
    from o have B: "0xF0 + cp div 0x40000 < 256"
      "\<forall>x \<in> set [0x80 + cp div 0x1000 mod 0x40, 0x80 + cp div 0x40 mod 0x40, 0x80 + cp mod 0x40]. x < 256"
      by (simp_all add: utf8_4(1) [OF d assms(1)])
    show ?thesis
      unfolding escapeCodePoint_def utf8_4(1) [OF d assms(1)]
      by (rule Decode_octets [OF B]) (simp_all add: utf8_4 [OF d assms(1)])
  qed
qed

lemma UTF16Encode_unit: "UTF16EncodeCodePoint (unat (c :: 16 word)) = [c]"
  using unat16_bound [of c] by (simp add: UTF16EncodeCodePoint_def)

lemma UTF16Encode_pair:
  assumes "isLeadSurrogate c" "isTrailSurrogate d"
  shows "UTF16EncodeCodePoint (surrogatePair c d) = [c, d]"
proof -
  define h where "h = unat c - 0xD800"
  define l where "l = unat d - 0xDC00"
  have hl: "h < 0x400" "l < 0x400" "unat c = h + 0xD800" "unat d = l + 0xDC00"
    using assms by (auto simp: h_def l_def isLeadSurrogate_def isTrailSurrogate_def)
  have sp: "surrogatePair c d = h * 0x400 + l + 0x10000"
    by (simp add: surrogatePair_def h_def l_def)
  have "(h * 0x400 + l) div 0x400 = h" "(h * 0x400 + l) mod 0x400 = l"
    using hl(2) by simp_all
  then have "UTF16EncodeCodePoint (surrogatePair c d) = [of_nat (unat c), of_nat (unat d)]"
    by (simp add: sp UTF16EncodeCodePoint_def hl(3,4) del: of_nat_add of_nat_unat)
  then show ?thesis by simp
qed

lemma Decode_mark:
  "isMark c \<Longrightarrow> Decode ((0x25 # toString16 (unat c)) @ r) = appendE (Inr [c]) (Decode r)"
proof -
  have p: "ParseHexOctet 0x32 0x31 = Some 0x21" "ParseHexOctet 0x32 0x37 = Some 0x27"
    "ParseHexOctet 0x32 0x38 = Some 0x28" "ParseHexOctet 0x32 0x39 = Some 0x29"
    "ParseHexOctet 0x32 0x61 = Some 0x2A"
    by (simp_all add: ParseHexOctet_def parseHexDigit_def)
  assume "isMark c"
  then consider "c = 0x21" | "c = 0x27" | "c = 0x28" | "c = 0x29" | "c = 0x2A"
    by (auto simp: isMark_cases)
  then show ?thesis
    by cases (simp_all add: toString16_marks Decode_escape_ascii [OF p(1)]
        Decode_escape_ascii [OF p(2)] Decode_escape_ascii [OF p(3)]
        Decode_escape_ascii [OF p(4)] Decode_escape_ascii [OF p(5)])
qed

lemma Decode_Encode: "Encode s = Inr t \<Longrightarrow> Decode (replaceMarks t) = Inr s"
proof (induction s arbitrary: t rule: Encode_induct)
  case (unescaped c cs)
  then obtain r where r: "Encode cs = Inr r" "t = c # r"
    by (cases "Encode cs") (auto simp: Encode_unescaped)
  show ?case
  proof (cases "isMark c")
    case True
    with unescaped(2) [OF r(1)] r(2) Decode_mark [OF True, of "replaceMarks r"]
    show ?thesis by (simp add: replaceMarks_Cons)
  next
    case False
    with unescaped(1) have "c \<noteq> 0x25" using not_percent_unescaped by auto
    with unescaped(2) [OF r(1)] r(2) False show ?thesis
      by (simp add: replaceMarks_Cons Decode_copy)
  qed
next
  case (pair c d ds)
  then obtain r where r: "Encode ds = Inr r" "t = escapeCodePoint (surrogatePair c d) @ r"
    by (cases "Encode ds") (auto simp: Encode_pair)
  from surrogatePair_bounds [OF pair(1,2)]
  have b: "surrogatePair c d \<le> 0x10FFFF" "\<not> (0xD800 \<le> surrogatePair c d \<and> surrogatePair c d \<le> 0xDFFF)"
    "surrogatePair c d < 0x200000"
    by simp_all
  from pair(3) [OF r(1)] r(2) show ?case
    by (simp add: replaceMarks_escapeCodePoint [OF b(3)] Decode_escapeCodePoint [OF b(1,2)]
        UTF16Encode_pair [OF pair(1,2)])
next
  case (other c cs)
  then obtain r where r: "Encode cs = Inr r" "t = escapeCodePoint (unat c) @ r"
    by (cases "Encode cs") (auto simp: Encode_other)
  from unat16_bound [of c] other(2,3)
  have b: "unat c \<le> 0x10FFFF" "\<not> (0xD800 \<le> unat c \<and> unat c \<le> 0xDFFF)" "unat c < 0x200000"
    by (auto simp: isLeadSurrogate_def isTrailSurrogate_def)
  from other(4) [OF r(1)] r(2) show ?case
    by (simp add: replaceMarks_escapeCodePoint [OF b(3)] Decode_escapeCodePoint [OF b(1,2)]
        UTF16Encode_unit)
qed (simp_all add: Encode_lone_lead Encode_lone_trail)


lemma enc_Str:
  "encodeURIComponentRFC3986 (Str s) = (case Encode s of Inl e \<Rightarrow> Inl e | Inr u \<Rightarrow> Inr (replaceMarks u))"
  by (simp add: encodeURIComponentRFC3986_def encodeURIComponentRFC2396_def)

lemma enc_Inl: "encodeURIComponentRFC3986 v = Inl e \<Longrightarrow> e = URIError"
  by (auto simp: encodeURIComponentRFC3986_def encodeURIComponentRFC2396_def
      split: sum.splits dest: Encode_Inl)

lemma enc_wellEscaped: "encodeURIComponentRFC3986 v = Inr t \<Longrightarrow> wellEscaped t"
  by (auto simp: encodeURIComponentRFC3986_def encodeURIComponentRFC2396_def
      split: sum.splits dest: Encode_wellEscaped)

lemma enc_append:
  "\<not> isTrailSurrogate c \<Longrightarrow>
   encodeURIComponentRFC3986 (Str (xs @ c # ys)) =
     appendE (encodeURIComponentRFC3986 (Str xs)) (encodeURIComponentRFC3986 (Str (c # ys)))"
  by (cases "Encode xs"; cases "Encode (c # ys)") (simp_all add: enc_Str Encode_append)

lemma enc_Cons_unreserved:
  "isUnreserved c \<Longrightarrow>
   encodeURIComponentRFC3986 (Str (c # ys)) = appendE (Inr [c]) (encodeURIComponentRFC3986 (Str ys))"
proof -
  assume u: "isUnreserved c"
  then have "uriUnescaped c" by (simp add: uriUnescaped_iff)
  moreover from u have "\<not> isMark c"
    using isUnreserved_bound [of c] by (auto simp: isMark_cases isUnreserved_def isAlnum_def)
  ultimately show ?thesis
    by (cases "Encode ys") (simp_all add: enc_Str Encode_unescaped replaceMarks_Cons)
qed

lemma enc_Cons_mark:
  "isMark c \<Longrightarrow>
   encodeURIComponentRFC3986 (Str (c # ys)) =
     appendE (Inr (0x25 # toString16 (unat c))) (encodeURIComponentRFC3986 (Str ys))"
  by (cases "Encode ys") (simp_all add: enc_Str Encode_unescaped replaceMarks_Cons uriUnescaped_iff)

lemma escapeCodePoint_percent: "\<exists>b. escapeCodePoint cp = 0x25 # b"
  by (simp add: escapeCodePoint_def utf8_def escapeOctet_def)

lemma enc_Cons_escaped:
  assumes "\<not> isUnreserved c" "encodeURIComponentRFC3986 (Str (c # ys)) = Inr u"
  shows "\<exists>b. u = 0x25 # b"
proof (cases "isMark c")
  case True
  with assms(2) show ?thesis
    by (cases "encodeURIComponentRFC3986 (Str ys)") (auto simp: enc_Cons_mark)
next
  case False
  with assms(1) have nu: "\<not> uriUnescaped c" by (simp add: uriUnescaped_iff)
  from assms(2) obtain t where t: "Encode (c # ys) = Inr t" "u = replaceMarks t"
    by (cases "Encode (c # ys)") (auto simp: enc_Str)
  from t(1) nu obtain cp r where "t = escapeCodePoint cp @ r" "cp < 0x200000"
  proof (cases "isLeadSurrogate c")
    case True
    with t(1) nu obtain d ds where d: "ys = d # ds" "isTrailSurrogate d"
      by (cases ys) (auto simp: Encode.simps(2) split: if_splits)
    with True t(1) obtain r where "t = escapeCodePoint (surrogatePair c d) @ r"
      by (cases "Encode ds") (auto simp: Encode_pair)
    moreover from surrogatePair_bounds [OF True d(2)] have "surrogatePair c d < 0x200000" by simp
    ultimately show ?thesis using that by blast
  next
    case False
    with t(1) nu have nt: "\<not> isTrailSurrogate c" by (auto simp: Encode_lone_trail)
    with False nu t(1) obtain r where "t = escapeCodePoint (unat c) @ r"
      by (cases "Encode ys") (auto simp: Encode_other)
    moreover from unat16_bound [of c] have "unat c < 0x200000" by simp
    ultimately show ?thesis using that by blast
  qed
  with t(2) escapeCodePoint_percent [of cp] show ?thesis
    by (auto simp: replaceMarks_escapeCodePoint)
qed

lemma unreserved_not_trail: "isUnreserved c \<Longrightarrow> \<not> isTrailSurrogate c"
  using isUnreserved_bound [of c] by (auto simp: isTrailSurrogate_def)

lemma mark_not_trail: "isMark c \<Longrightarrow> \<not> isTrailSurrogate c"
  by (auto simp: isMark_cases isTrailSurrogate_def)

lemma isHexDigit_unreserved: "isHexDigit c \<Longrightarrow> isUnreserved c"
  by (auto simp: isHexDigit_def isUnreserved_def isAlnum_def)

lemma wellEscaped_alphabet: "wellEscaped t \<Longrightarrow> x \<in> set t \<Longrightarrow> isUnreserved x \<or> x = 0x25"
  by (induction t rule: wellEscaped.induct)
     (auto split: if_splits list.splits dest: isHexDigit_unreserved)

lemma enc_alphabet:
  "encodeURIComponentRFC3986 v = Inr t \<Longrightarrow> x \<in> set t \<Longrightarrow> isUnreserved x \<or> x = 0x25"
  using enc_wellEscaped wellEscaped_alphabet by blast


lemma digits_numeral:
  "digits (numeral k) =
     (if numeral k < (10::nat) then [of_nat (48 + numeral k)]
      else digits (numeral k div 10) @ [of_nat (48 + numeral k mod 10)])"
  by (rule digits.simps)

lemma digits_small: "digits 0 = [48]" "digits 1 = [49]" "digits (Suc 0) = [49]"
  by (simp_all add: digits.simps [of 0] digits.simps [of 1] digits.simps [of "Suc 0"])

lemma toString16_numeral:
  "toString16 (numeral k) =
     (if numeral k < (16::nat) then [hexLower (numeral k)]
      else toString16 (numeral k div 16) @ [hexLower (numeral k mod 16)])"
  by (rule toString16.simps)

lemmas encode_eval =
  encodePercent_def encodeURIComponentRFC3986_def encodeURIComponentRFC2396_def Encode.simps(2)
  uriUnescaped_def isAlnum_def isLeadSurrogate_def isTrailSurrogate_def surrogatePair_def
  escapeCodePoint_def escapeOctet_def utf8_def hexUpper_def replaceMarks_def isMark_def
  hexLower_def toString16_numeral digits_numeral digits_small

lemmas decode_eval =
  decodeURIComponent_def Decode.simps(2) ParseHexOctet_def parseHexDigit_def leadingOnes_def
  utf8Decode_def isContinuation_def UTF16EncodeCodePoint_def


section \<open>The claims about the percent-encoder\<close>

text \<open>
  Claim C4. For every input, the output of \<open>encodeURIComponentRFC3986\<close> consists of single
  unreserved characters (\<open>A-Z a-z 0-9 - _ . ~\<close>) and of escapes, a \<open>%\<close> with two hexadecimal
  digits, and of nothing else. An unreserved character of the input is copied as it is,
  wherever it stands. Each of \<open>! ' ( ) *\<close>, which the built-in \<open>encodeURIComponent\<close> leaves
  unescaped, is replaced by \<open>%\<close> and the lowercase hexadecimal form of its char code:
  \<open>%21 %27 %28 %29 %2a\<close>. A string that starts with a character outside the unreserved set
  is encoded to a string that starts with an escape.
\<close>

theorem percent_encoding_unreserved_only:
  "(encodeURIComponentRFC3986 v = Inr t \<longrightarrow> wellEscaped t)
   \<and> (isUnreserved c \<longrightarrow>
        encodeURIComponentRFC3986 (Str (xs @ c # ys)) =
          appendE (encodeURIComponentRFC3986 (Str xs))
            (appendE (Inr [c]) (encodeURIComponentRFC3986 (Str ys))))
   \<and> (isMark m \<longrightarrow>
        uriUnescaped m
        \<and> encodeURIComponentRFC3986 (Str (ps @ m # qs)) =
            appendE (encodeURIComponentRFC3986 (Str ps))
              (appendE (Inr (0x25 # toString16 (unat m))) (encodeURIComponentRFC3986 (Str qs))))
   \<and> (\<not> isUnreserved x \<and> encodeURIComponentRFC3986 (Str (x # zs)) = Inr u \<longrightarrow> (\<exists>b. u = 0x25 # b))
   \<and> map (\<lambda>char. 0x25 # toString16 (unat char)) (str ''!'' @ [0x27] @ str ''()*'') =
       [str ''%21'', str ''%27'', str ''%28'', str ''%29'', str ''%2a'']"
proof (intro conjI impI)
  assume "encodeURIComponentRFC3986 v = Inr t"
  then show "wellEscaped t" by (rule enc_wellEscaped)
next
  assume u: "isUnreserved c"
  show "encodeURIComponentRFC3986 (Str (xs @ c # ys)) =
          appendE (encodeURIComponentRFC3986 (Str xs))
            (appendE (Inr [c]) (encodeURIComponentRFC3986 (Str ys)))"
    by (simp add: enc_append [OF unreserved_not_trail [OF u]] enc_Cons_unreserved [OF u])
next
  assume m: "isMark m"
  then show "uriUnescaped m" by (simp add: uriUnescaped_iff)
  show "encodeURIComponentRFC3986 (Str (ps @ m # qs)) =
            appendE (encodeURIComponentRFC3986 (Str ps))
              (appendE (Inr (0x25 # toString16 (unat m))) (encodeURIComponentRFC3986 (Str qs)))"
    by (simp add: enc_append [OF mark_not_trail [OF m]] enc_Cons_mark [OF m])
next
  assume "\<not> isUnreserved x \<and> encodeURIComponentRFC3986 (Str (x # zs)) = Inr u"
  then show "\<exists>b. u = 0x25 # b" using enc_Cons_escaped by blast
next
  show "map (\<lambda>char. 0x25 # toString16 (unat char)) (str ''!'' @ [0x27] @ str ''()*'') =
       [str ''%21'', str ''%27'', str ''%28'', str ''%29'', str ''%2a'']"
    by (simp add: toString16_marks)
qed

text \<open>The theorem at \<open>a~!\<close>, at \<open>a*b\<close> and at a string that starts with a space.\<close>

theorem percent_encoding_unreserved_only_witness:
  "encodeURIComponentRFC3986 (Str (str ''a~!'')) = Inr (str ''a~%21'')
   \<and> wellEscaped (str ''a~%21'')
   \<and> isUnreserved 0x7E
   \<and> encodeURIComponentRFC3986 (Str (str ''a'' @ 0x7E # str ''!'')) =
       appendE (encodeURIComponentRFC3986 (Str (str ''a'')))
         (appendE (Inr [0x7E]) (encodeURIComponentRFC3986 (Str (str ''!''))))
   \<and> isMark 0x2A
   \<and> encodeURIComponentRFC3986 (Str (str ''a'' @ 0x2A # str ''b'')) = Inr (str ''a%2ab'')
   \<and> \<not> isUnreserved 0x20
   \<and> encodeURIComponentRFC3986 (Str (0x20 # str ''b'')) = Inr (0x25 # str ''20b'')"
proof -
  have e: "encodeURIComponentRFC3986 (Str (str ''a~!'')) = Inr (str ''a~%21'')"
    by (simp add: encode_eval)
  have s: "encodeURIComponentRFC3986 (Str (0x20 # str ''b'')) = Inr (0x25 # str ''20b'')"
    by (simp add: encode_eval)
  have u: "isUnreserved 0x7E" "isMark 0x2A" "\<not> isUnreserved 0x20"
    by (simp_all add: isUnreserved_def isMark_def isAlnum_def)
  have a: "encodeURIComponentRFC3986 (Str (str ''a'')) = Inr (str ''a'')"
    "encodeURIComponentRFC3986 (Str (str ''b'')) = Inr (str ''b'')"
    by (simp_all add: encode_eval)
  from percent_encoding_unreserved_only
    [of "Str (str ''a~!'')" "str ''a~%21''" "0x7E" "str ''a''" "str ''!''" "0x2A" "str ''a''"
      "str ''b''" "0x20" "str ''b''" "0x25 # str ''20b''"]
    e s u a
  show ?thesis by (simp add: toString16_marks)
qed

text \<open>
  The encoder has an error condition: a string with an unpaired surrogate, here the single
  code unit \<open>0xD800\<close>, makes the built-in \<open>encodeURIComponent\<close> throw \<open>URIError\<close>.
\<close>

theorem encode_lone_surrogate_throws:
  "encodeURIComponentRFC3986 (Str [0xD800]) = Inl URIError"
  by (simp add: encode_eval)

text \<open>
  Claim C5, amended. For every well-formed string \<open>s\<close> (no unpaired surrogate),
  \<open>encodeURIComponentRFC3986\<close> returns a string, and percent-decoding that string gives \<open>s\<close>
  back. The encoder throws exactly on the strings that are not well formed, and what it
  throws is \<open>URIError\<close>. It is a function of its argument alone.
\<close>

theorem decode_encode_roundtrip:
  "(isWellFormed s \<longrightarrow>
      (\<exists>t. encodeURIComponentRFC3986 (Str s) = Inr t \<and> decodeURIComponent (Str t) = Inr s))
   \<and> ((encodeURIComponentRFC3986 (Str s) = Inl URIError) = (\<not> isWellFormed s))"
proof (intro conjI impI)
  assume "isWellFormed s"
  then obtain u where u: "Encode s = Inr u" using Encode_isWellFormed by blast
  then have "encodeURIComponentRFC3986 (Str s) = Inr (replaceMarks u)"
    by (simp add: enc_Str)
  moreover from u have "decodeURIComponent (Str (replaceMarks u)) = Inr s"
    by (simp add: decodeURIComponent_def Decode_Encode)
  ultimately show "\<exists>t. encodeURIComponentRFC3986 (Str s) = Inr t \<and> decodeURIComponent (Str t) = Inr s"
    by blast
next
  show "(encodeURIComponentRFC3986 (Str s) = Inl URIError) = (\<not> isWellFormed s)"
    using Encode_isWellFormed [of s] Encode_not_wellFormed [of s]
    by (cases "Encode s") (auto simp: enc_Str)
qed

text \<open>The theorem at \<open>a\<close>, a space, \<open>*\<close> and the surrogate pair of U+1F600.\<close>

theorem decode_encode_roundtrip_witness:
  "isWellFormed [0x61, 0x20, 0x2A, 0xD83D, 0xDE00]
   \<and> encodeURIComponentRFC3986 (Str [0x61, 0x20, 0x2A, 0xD83D, 0xDE00]) = Inr (str ''a%20%2a%F0%9F%98%80'')
   \<and> decodeURIComponent (Str (str ''a%20%2a%F0%9F%98%80'')) = Inr [0x61, 0x20, 0x2A, 0xD83D, 0xDE00]"
proof -
  have w: "isWellFormed [0x61, 0x20, 0x2A, 0xD83D, 0xDE00]"
    by (simp add: isLeadSurrogate_def isTrailSurrogate_def)
  have e: "encodeURIComponentRFC3986 (Str [0x61, 0x20, 0x2A, 0xD83D, 0xDE00]) = Inr (str ''a%20%2a%F0%9F%98%80'')"
    by (simp add: encode_eval)
  from decode_encode_roundtrip [of "[0x61, 0x20, 0x2A, 0xD83D, 0xDE00]"] w e
  show ?thesis by simp
qed


section \<open>Properties of the signature functions\<close>

lemma comparePairs_le: "comparePairs a b \<le> 0 \<longleftrightarrow> a \<le> b"
  by (cases a; cases b) (auto simp: comparePairs_def less_eq_prod_def)

lemma comparePairs_eq: "comparePairs a b = 0 \<longleftrightarrow> a = b"
  by (cases a; cases b) (auto simp: comparePairs_def)

lemma insertSorted_insort: "insertSorted comparePairs x ys = insort x ys"
  by (induction ys) (simp_all add: comparePairs_le)

lemma sortWith_sort: "sortWith comparePairs xs = sort xs"
  by (induction xs) (simp_all add: sortWith_def insertSorted_insort)

lemma sortWith_mset_cong: "mset xs = mset ys \<Longrightarrow> sortWith comparePairs xs = sortWith comparePairs ys"
  unfolding sortWith_sort by (rule properties_for_sort) simp_all

lemma encodePair_Inl: "encodePair p = Inl e \<Longrightarrow> e = URIError"
  by (auto simp: encodePair_def encodePercent_def split: sum.splits dest: enc_Inl)

lemma mapE_total:
  assumes "\<And>x e. f x = Inl e \<Longrightarrow> e = URIError"
  shows "mapE f xs = (if \<forall>x \<in> set xs. \<exists>y. f x = Inr y then Inr (map (\<lambda>x. projr (f x)) xs) else Inl URIError)"
proof (induction xs)
  case Nil
  show ?case by simp
next
  case (Cons x xs)
  show ?case
  proof (cases "f x")
    case (Inl e)
    with assms have "e = URIError" by blast
    with Inl show ?thesis by auto
  next
    case (Inr y)
    with Cons show ?thesis by auto
  qed
qed


lemma mapE_mset_cong:
  assumes "\<And>x e. f x = Inl e \<Longrightarrow> e = URIError" "mset xs = mset ys"
  shows "map_sum id mset (mapE f xs) = map_sum id mset (mapE f ys)"
proof -
  from assms(2) have s: "set xs = set ys" by (rule mset_eq_setD)
  from assms(2) have "mset (map (\<lambda>x. projr (f x)) xs) = mset (map (\<lambda>x. projr (f x)) ys)"
    by simp
  with s show ?thesis
    by (simp add: mapE_total [of f, OF assms(1)])
qed

lemma paramsString_mset_cong:
  assumes "mset (params @ oAuthParams @ bodyParams) = mset (params' @ oAuthParams' @ bodyParams')"
  shows "paramsString params oAuthParams bodyParams = paramsString params' oAuthParams' bodyParams'"
proof -
  let ?a = "mapE encodePair (params @ oAuthParams @ bodyParams)"
  let ?b = "mapE encodePair (params' @ oAuthParams' @ bodyParams')"
  have m: "map_sum id mset ?a = map_sum id mset ?b"
    using encodePair_Inl assms by (rule mapE_mset_cong)
  show ?thesis
  proof (cases ?a)
    case (Inl e)
    with m show ?thesis by (cases ?b) (simp_all add: paramsString_def)
  next
    case (Inr ps)
    with m obtain qs where qs: "?b = Inr qs" "mset ps = mset qs" by (cases ?b) auto
    from qs(2) have "sortWith comparePairs ps = sortWith comparePairs qs"
      by (rule sortWith_mset_cong)
    with Inr qs(1) show ?thesis by (simp add: paramsString_def)
  qed
qed

lemma sortWith_sorted: "sorted_wrt (\<lambda>a b. comparePairs a b \<le> 0) (sortWith comparePairs ps)"
  by (simp add: sortWith_sort comparePairs_le)

lemma sortWith_mset: "mset (sortWith comparePairs ps) = mset ps"
  by (simp add: sortWith_sort)


lemmas params_eval =
  paramsString_def encodePair_def sortWith_def comparePairs_def queryPair_def buildQuery_def
  buildURL_def credentialPair_def quoted_def


lemma enc_no_amp: "encodePercent v = Inr t \<Longrightarrow> 0x26 \<notin> set t"
proof
  assume "encodePercent v = Inr t" "0x26 \<in> set t"
  then have "isUnreserved 0x26 \<or> (0x26 :: code_unit) = 0x25"
    unfolding encodePercent_def by (rule enc_alphabet)
  then show False by (simp add: isUnreserved_def isAlnum_def)
qed

lemma count_list_append: "count_list (xs @ ys) a = count_list xs a + count_list ys a"
  by (induction xs) simp_all

lemma count_list_absent: "a \<notin> set xs \<Longrightarrow> count_list xs a = 0"
  by (induction xs) auto


section \<open>The claims about the signature\<close>

text \<open>
  Claim C2. Canonicalisation does not depend on the order of its input: two triples of
  parameter lists whose concatenations are permutations of each other give the same
  canonical parameter string (or both throw). The string joins the percent-encoded pairs in
  the order of the comparator, ascending by encoded key and then by encoded value, which is
  a total order in which only identical pairs compare equal.
\<close>

theorem paramsString_order_independent:
  "(mset (params @ oAuthParams @ bodyParams) = mset (params' @ oAuthParams' @ bodyParams') \<longrightarrow>
      paramsString params oAuthParams bodyParams = paramsString params' oAuthParams' bodyParams')
   \<and> (paramsString params oAuthParams bodyParams = Inr s \<longrightarrow>
        (\<exists>ps. mapE encodePair (params @ oAuthParams @ bodyParams) = Inr ps
           \<and> sorted_wrt (\<lambda>a b. comparePairs a b \<le> 0) (sortWith comparePairs ps)
           \<and> mset (sortWith comparePairs ps) = mset ps
           \<and> s = join (str ''&'') (map (\<lambda>(key, val). key @ str ''='' @ val) (sortWith comparePairs ps))))
   \<and> (comparePairs x y = 0) = (x = y)
   \<and> (comparePairs x y \<le> 0) = (fst x < fst y \<or> fst x = fst y \<and> snd x \<le> snd y)"
proof (intro conjI impI)
  assume "mset (params @ oAuthParams @ bodyParams) = mset (params' @ oAuthParams' @ bodyParams')"
  then show "paramsString params oAuthParams bodyParams = paramsString params' oAuthParams' bodyParams'"
    by (rule paramsString_mset_cong)
next
  assume "paramsString params oAuthParams bodyParams = Inr s"
  then show "\<exists>ps. mapE encodePair (params @ oAuthParams @ bodyParams) = Inr ps
           \<and> sorted_wrt (\<lambda>a b. comparePairs a b \<le> 0) (sortWith comparePairs ps)
           \<and> mset (sortWith comparePairs ps) = mset ps
           \<and> s = join (str ''&'') (map (\<lambda>(key, val). key @ str ''='' @ val) (sortWith comparePairs ps))"
    by (cases "mapE encodePair (params @ oAuthParams @ bodyParams)")
       (auto simp: paramsString_def sortWith_sorted sortWith_mset)
next
  show "(comparePairs x y = 0) = (x = y)" by (rule comparePairs_eq)
next
  show "(comparePairs x y \<le> 0) = (fst x < fst y \<or> fst x = fst y \<and> snd x \<le> snd y)"
    by (auto simp: comparePairs_def)
qed

text \<open>The theorem at two arrangements of the pairs \<open>b=2\<close>, \<open>a=1\<close>, \<open>a=0\<close>, \<open>a=1\<close>.\<close>

theorem paramsString_order_independent_witness:
  "mset ([(Str (str ''b''), Str (str ''2''))] @ [(Str (str ''a''), Str (str ''1''))]
          @ [(Str (str ''a''), Str (str ''0'')), (Str (str ''a''), Str (str ''1''))])
     = mset ([(Str (str ''a''), Str (str ''1'')), (Str (str ''a''), Str (str ''0''))] @ []
              @ [(Str (str ''a''), Str (str ''1'')), (Str (str ''b''), Str (str ''2''))])
   \<and> paramsString [(Str (str ''b''), Str (str ''2''))] [(Str (str ''a''), Str (str ''1''))]
        [(Str (str ''a''), Str (str ''0'')), (Str (str ''a''), Str (str ''1''))]
       = Inr (str ''a=0&a=1&a=1&b=2'')
   \<and> paramsString [(Str (str ''a''), Str (str ''1'')), (Str (str ''a''), Str (str ''0''))] []
        [(Str (str ''a''), Str (str ''1'')), (Str (str ''b''), Str (str ''2''))]
       = Inr (str ''a=0&a=1&a=1&b=2'')"
proof -
  have m: "mset ([(Str (str ''b''), Str (str ''2''))] @ [(Str (str ''a''), Str (str ''1''))]
          @ [(Str (str ''a''), Str (str ''0'')), (Str (str ''a''), Str (str ''1''))])
     = mset ([(Str (str ''a''), Str (str ''1'')), (Str (str ''a''), Str (str ''0''))] @ []
              @ [(Str (str ''a''), Str (str ''1'')), (Str (str ''b''), Str (str ''2''))])"
    by simp
  have e: "paramsString [(Str (str ''b''), Str (str ''2''))] [(Str (str ''a''), Str (str ''1''))]
        [(Str (str ''a''), Str (str ''0'')), (Str (str ''a''), Str (str ''1''))]
       = Inr (str ''a=0&a=1&a=1&b=2'')"
    by (simp add: params_eval encode_eval)
  from paramsString_order_independent
    [of "[(Str (str ''b''), Str (str ''2''))]" "[(Str (str ''a''), Str (str ''1''))]"
      "[(Str (str ''a''), Str (str ''0'')), (Str (str ''a''), Str (str ''1''))]"
      "[(Str (str ''a''), Str (str ''1'')), (Str (str ''a''), Str (str ''0''))]" "[]"
      "[(Str (str ''a''), Str (str ''1'')), (Str (str ''b''), Str (str ''2''))]"
      "str ''a=0&a=1&a=1&b=2''"] m e
  show ?thesis by simp
qed

text \<open>
  Claim C3. The signing key string is the percent-encoding of the consumer secret, a literal
  \<open>&\<close>, and the percent-encoding of the token secret (the call throws if one of the two
  encodings does). It holds exactly one \<open>&\<close>, also when the token secret is empty; with the
  consumer secret \<open>SECRET\<close> and no token it is \<open>SECRET&\<close>.
\<close>

theorem keyString_single_separator:
  "keyString this =
     appendE (encodePercent (consumerSecret this))
       (appendE (Inr (str ''&'')) (encodePercent (tokenSecret this)))
   \<and> (keyString this = Inr key \<longrightarrow> count_list key 0x26 = 1)
   \<and> (tokenSecret this = Str [] \<and> encodePercent (consumerSecret this) = Inr c \<longrightarrow>
        keyString this = Inr (c @ str ''&''))
   \<and> keyString (setToken Undefined Undefined (constructor ck (Str (str ''SECRET''))))
       = Inr (str ''SECRET&'')"
proof (intro conjI impI)
  show e: "keyString this =
     appendE (encodePercent (consumerSecret this))
       (appendE (Inr (str ''&'')) (encodePercent (tokenSecret this)))"
    by (cases "encodePercent (consumerSecret this)"; cases "encodePercent (tokenSecret this)")
       (simp_all add: keyString_def)
  {
    assume k: "keyString this = Inr key"
    then obtain a b where ab: "encodePercent (consumerSecret this) = Inr a"
      "encodePercent (tokenSecret this) = Inr b" "key = a @ str ''&'' @ b"
      by (cases "encodePercent (consumerSecret this)"; cases "encodePercent (tokenSecret this)")
         (auto simp: keyString_def)
    from enc_no_amp [OF ab(1)] enc_no_amp [OF ab(2)] ab(3)
    show "count_list key 0x26 = 1"
      by (simp add: count_list_append count_list_absent)
  }
  {
    assume "tokenSecret this = Str [] \<and> encodePercent (consumerSecret this) = Inr c"
    then show "keyString this = Inr (c @ str ''&'')"
      by (simp add: keyString_def encode_eval)
  }
  show "keyString (setToken Undefined Undefined (constructor ck (Str (str ''SECRET''))))
       = Inr (str ''SECRET&'')"
    by (simp add: keyString_def setToken_def constructor_def orDefault_def encode_eval)
qed

text \<open>The theorem at the consumer secret \<open>a&b\<close> and an empty token secret.\<close>

theorem keyString_single_separator_witness:
  "keyString (constructor (Str (str ''ck'')) (Str (str ''a&b''))) = Inr (str ''a%26b&'')
   \<and> count_list (str ''a%26b&'') 0x26 = 1
   \<and> tokenSecret (constructor (Str (str ''ck'')) (Str (str ''a&b''))) = Str []
   \<and> encodePercent (consumerSecret (constructor (Str (str ''ck'')) (Str (str ''a&b'')))) = Inr (str ''a%26b'')"
proof -
  have e: "encodePercent (consumerSecret (constructor (Str (str ''ck'')) (Str (str ''a&b'')))) = Inr (str ''a%26b'')"
    by (simp add: constructor_def encode_eval)
  have t: "tokenSecret (constructor (Str (str ''ck'')) (Str (str ''a&b''))) = Str []"
    by (simp add: constructor_def)
  note w = keyString_single_separator
    [of "constructor (Str (str ''ck'')) (Str (str ''a&b''))" "str ''a%26b&''" "str ''a%26b''"
      "Str (str ''ck'')"]
  from w e t have "keyString (constructor (Str (str ''ck'')) (Str (str ''a&b''))) = Inr (str ''a%26b'' @ str ''&'')"
    by blast
  then have k: "keyString (constructor (Str (str ''ck'')) (Str (str ''a&b''))) = Inr (str ''a%26b&'')"
    by simp
  with w have "count_list (str ''a%26b&'') 0x26 = 1" by blast
  with k e t show ?thesis by blast
qed

text \<open>
  Claim C1. The signature base string is the upper-cased method, a literal \<open>&\<close>, the
  percent-encoding of the base URL, a literal \<open>&\<close>, and the percent-encoding of the canonical
  parameter string. Neither encoded part holds an \<open>&\<close>, so the two separators stand
  unencoded between the three parts.
\<close>

theorem baseString_form:
  "baseString P method requestURL paramsStr =
     appendE (Inr (toUpperCase P method @ str ''&''))
       (appendE (encodePercent (Str requestURL))
          (appendE (Inr (str ''&'')) (encodePercent (Str paramsStr))))
   \<and> (encodePercent (Str requestURL) = Inr u \<and> encodePercent (Str paramsStr) = Inr p \<longrightarrow>
        baseString P method requestURL paramsStr = Inr (toUpperCase P method @ str ''&'' @ u @ str ''&'' @ p)
        \<and> 0x26 \<notin> set u \<and> 0x26 \<notin> set p)"
proof (intro conjI impI)
  show "baseString P method requestURL paramsStr =
     appendE (Inr (toUpperCase P method @ str ''&''))
       (appendE (encodePercent (Str requestURL))
          (appendE (Inr (str ''&'')) (encodePercent (Str paramsStr))))"
    by (cases "encodePercent (Str requestURL)"; cases "encodePercent (Str paramsStr)")
       (simp_all add: baseString_def)
next
  assume a: "encodePercent (Str requestURL) = Inr u \<and> encodePercent (Str paramsStr) = Inr p"
  then show "baseString P method requestURL paramsStr = Inr (toUpperCase P method @ str ''&'' @ u @ str ''&'' @ p)"
    by (simp add: baseString_def)
  from a show "0x26 \<notin> set u" using enc_no_amp by blast
  from a show "0x26 \<notin> set p" using enc_no_amp by blast
qed

text \<open>The theorem at \<open>get\<close>, \<open>http://example.com/r\<close> and \<open>a=1&b=2\<close>.\<close>

theorem baseString_form_witness:
  "encodePercent (Str (str ''http://example.com/r'')) = Inr (str ''http%3A%2F%2Fexample.com%2Fr'')
   \<and> encodePercent (Str (str ''a=1&b=2'')) = Inr (str ''a%3D1%26b%3D2'')
   \<and> baseString testPlatform (str ''get'') (str ''http://example.com/r'') (str ''a=1&b=2'')
       = Inr (str ''GET&http%3A%2F%2Fexample.com%2Fr&a%3D1%26b%3D2'')"
proof -
  have e: "encodePercent (Str (str ''http://example.com/r'')) = Inr (str ''http%3A%2F%2Fexample.com%2Fr'')"
    "encodePercent (Str (str ''a=1&b=2'')) = Inr (str ''a%3D1%26b%3D2'')"
    by (simp_all add: encode_eval)
  have u: "toUpperCase testPlatform (str ''get'') = str ''GET''"
    by (simp add: testPlatform_def asciiUpper_def)
  from baseString_form
    [of testPlatform "str ''get''" "str ''http://example.com/r''" "str ''a=1&b=2''"
      "str ''http%3A%2F%2Fexample.com%2Fr''" "str ''a%3D1%26b%3D2''"] e u
  show ?thesis by simp
qed


section \<open>The claims about the token responses\<close>

lemma get_absent: "name \<notin> fst ` set ps \<Longrightarrow> get ps name = Null"
  using map_of_eq_None_iff [of ps name] by (simp add: get_def)

lemma get_present: "map_of ps name = Some v \<Longrightarrow> get ps name = Str v"
  by (simp add: get_def)

lemma get_not_undefined: "get ps name \<noteq> Undefined"
  by (simp add: get_def split: option.splits)

lemma setToken_get:
  "setToken (get ps a) (get qs b) this = this\<lparr>token := get ps a, tokenSecret := get qs b\<rparr>"
  by (simp add: setToken_def orDefault_def get_not_undefined)

lemmas response_eval =
  getRequestTokenParamsFrom_def getAccessTokenParamsFrom_def testPlatform_def splitPairs_def
  get_def setToken_def orDefault_def constructor_def

text \<open>
  Claim C6. \<open>getRequestTokenParamsFrom\<close> throws the repository's error (class \<open>OAuthError\<close>)
  with the message \<open>Failed to get request token\<close> when the response is not ok, and with the
  message \<open>Unconfirmed callback\<close> when the body of an ok response has no
  \<open>oauth_callback_confirmed\<close>. Whenever it throws, the client is left as it was. When it
  returns, the response was ok and confirmed, and the token and the token secret are the
  body's \<open>oauth_token\<close> and \<open>oauth_token_secret\<close>.
\<close>

theorem getRequestTokenParamsFrom_errors:
  "(\<not> resp_ok r1 \<longrightarrow>
      getRequestTokenParamsFrom P this r1 = (Inl (OAuthError ''Failed to get request token''), this))
   \<and> (resp_ok r2
        \<and> str ''oauth_callback_confirmed'' \<notin> fst ` set (URLSearchParams P (resp_text r2)) \<longrightarrow>
        getRequestTokenParamsFrom P this r2 = (Inl (OAuthError ''Unconfirmed callback''), this))
   \<and> (fst (getRequestTokenParamsFrom P this r3) = Inl e \<longrightarrow>
        snd (getRequestTokenParamsFrom P this r3) = this)
   \<and> (getRequestTokenParamsFrom P this r4 = (Inr params, this') \<longrightarrow>
        resp_ok r4
        \<and> params = URLSearchParams P (resp_text r4)
        \<and> ToBoolean (get params (str ''oauth_callback_confirmed''))
        \<and> this' = this\<lparr>token := get params (str ''oauth_token''),
                         tokenSecret := get params (str ''oauth_token_secret'')\<rparr>)"
  by (auto simp: getRequestTokenParamsFrom_def Let_def get_absent setToken_get
      split: sum.splits if_splits)


text \<open>
  The theorem at a failed response, at the body \<open>oauth_token=T&oauth_token_secret=S\<close> and at
  the same body with \<open>oauth_callback_confirmed=true\<close>, on a client that holds a token.
\<close>

theorem getRequestTokenParamsFrom_errors_witness:
  "\<not> resp_ok \<lparr>resp_ok = False, resp_text = []\<rparr>
   \<and> getRequestTokenParamsFrom testPlatform (setToken (Str (str ''old'')) (Str (str ''s'')) (constructor (Str (str ''ck'')) (Str (str ''cs''))))
        \<lparr>resp_ok = False, resp_text = []\<rparr>
       = (Inl (OAuthError ''Failed to get request token''),
          setToken (Str (str ''old'')) (Str (str ''s'')) (constructor (Str (str ''ck'')) (Str (str ''cs''))))
   \<and> URLSearchParams testPlatform (str ''oauth_token=T&oauth_token_secret=S'')
       = [(str ''oauth_token'', str ''T''), (str ''oauth_token_secret'', str ''S'')]
   \<and> getRequestTokenParamsFrom testPlatform (setToken (Str (str ''old'')) (Str (str ''s'')) (constructor (Str (str ''ck'')) (Str (str ''cs''))))
        \<lparr>resp_ok = True, resp_text = (str ''oauth_token=T&oauth_token_secret=S'')\<rparr>
       = (Inl (OAuthError ''Unconfirmed callback''),
          setToken (Str (str ''old'')) (Str (str ''s'')) (constructor (Str (str ''ck'')) (Str (str ''cs''))))
   \<and> getRequestTokenParamsFrom testPlatform (setToken (Str (str ''old'')) (Str (str ''s'')) (constructor (Str (str ''ck'')) (Str (str ''cs''))))
        \<lparr>resp_ok = True,
         resp_text = (str ''oauth_token=T&oauth_token_secret=S&oauth_callback_confirmed=true'')\<rparr>
       = (Inr [(str ''oauth_token'', str ''T''), (str ''oauth_token_secret'', str ''S''),
               (str ''oauth_callback_confirmed'', str ''true'')],
          setToken (Str (str ''T'')) (Str (str ''S'')) (constructor (Str (str ''ck'')) (Str (str ''cs''))))"
proof -
  let ?cl = "setToken (Str (str ''old'')) (Str (str ''s'')) (constructor (Str (str ''ck'')) (Str (str ''cs'')))"
  let ?r1 = "\<lparr>resp_ok = False, resp_text = []\<rparr>"
  let ?r2 = "\<lparr>resp_ok = True, resp_text = (str ''oauth_token=T&oauth_token_secret=S'')\<rparr>"
  let ?r4 = "\<lparr>resp_ok = True,
         resp_text = (str ''oauth_token=T&oauth_token_secret=S&oauth_callback_confirmed=true'')\<rparr>"
  have p: "URLSearchParams testPlatform (str ''oauth_token=T&oauth_token_secret=S'')
       = [(str ''oauth_token'', str ''T''), (str ''oauth_token_secret'', str ''S'')]"
    by (simp add: testPlatform_def splitPairs_def)
  have n: "str ''oauth_callback_confirmed'' \<notin> fst ` set (URLSearchParams testPlatform (resp_text ?r2))"
    using p by simp
  have r4: "getRequestTokenParamsFrom testPlatform ?cl ?r4
       = (Inr [(str ''oauth_token'', str ''T''), (str ''oauth_token_secret'', str ''S''),
               (str ''oauth_callback_confirmed'', str ''true'')],
          setToken (Str (str ''T'')) (Str (str ''S'')) (constructor (Str (str ''ck'')) (Str (str ''cs''))))"
    by (simp add: response_eval)
  note w = getRequestTokenParamsFrom_errors
    [of ?r1 testPlatform ?cl ?r2 ?r1
      "OAuthError ''Failed to get request token''" ?r4
      "[(str ''oauth_token'', str ''T''), (str ''oauth_token_secret'', str ''S''),
               (str ''oauth_callback_confirmed'', str ''true'')]"
      "setToken (Str (str ''T'')) (Str (str ''S'')) (constructor (Str (str ''ck'')) (Str (str ''cs'')))"]
  from w have a: "getRequestTokenParamsFrom testPlatform ?cl ?r1
       = (Inl (OAuthError ''Failed to get request token''), ?cl)" by simp
  from w n have b: "getRequestTokenParamsFrom testPlatform ?cl ?r2
       = (Inl (OAuthError ''Unconfirmed callback''), ?cl)" by simp
  from a b p r4 show ?thesis by simp
qed


text \<open>
  Claim C9. For every ok response, \<open>getAccessTokenParamsFrom\<close> returns the parsed parameters
  and overwrites both token fields with the body's \<open>oauth_token\<close> and \<open>oauth_token_secret\<close> as
  \<open>URLSearchParams.get\<close> gives them: the first value under the key, or \<open>null\<close> when the key
  is absent. \<open>setToken\<close> stores a \<open>null\<close> as it is; its empty-string defaults apply to
  \<open>undefined\<close> only.
\<close>

theorem getAccessTokenParamsFrom_sets_token:
  "(resp_ok r \<longrightarrow>
      getAccessTokenParamsFrom P this r =
        (Inr (URLSearchParams P (resp_text r)),
         this\<lparr>token := get (URLSearchParams P (resp_text r)) (str ''oauth_token''),
               tokenSecret := get (URLSearchParams P (resp_text r)) (str ''oauth_token_secret'')\<rparr>))
   \<and> (name \<notin> fst ` set ps \<longrightarrow> get ps name = Null)
   \<and> (map_of qs key = Some v \<longrightarrow> get qs key = Str v)
   \<and> setToken Null Null this = this\<lparr>token := Null, tokenSecret := Null\<rparr>
   \<and> setToken Undefined Undefined this = this\<lparr>token := Str [], tokenSecret := Str []\<rparr>"
  by (simp add: getAccessTokenParamsFrom_def Let_def get_absent get_present setToken_get)
     (simp add: setToken_def orDefault_def)

text \<open>The theorem at the body \<open>oauth_token=T&x=1\<close>, which has no \<open>oauth_token_secret\<close>.\<close>

theorem getAccessTokenParamsFrom_sets_token_witness:
  "resp_ok \<lparr>resp_ok = True, resp_text = str ''oauth_token=T&x=1''\<rparr>
   \<and> getAccessTokenParamsFrom testPlatform (constructor (Str (str ''ck'')) (Str (str ''cs'')))
     \<lparr>resp_ok = True, resp_text = str ''oauth_token=T&x=1''\<rparr>
   = (Inr [(str ''oauth_token'', str ''T''), (str ''x'', str ''1'')],
      (constructor (Str (str ''ck'')) (Str (str ''cs'')))\<lparr>token := Str (str ''T''), tokenSecret := Null\<rparr>)
   \<and> str ''oauth_token_secret'' \<notin> fst ` set [(str ''oauth_token'', str ''T''), (str ''x'', str ''1'')]
   \<and> map_of [(str ''oauth_token'', str ''T''), (str ''x'', str ''1'')] (str ''oauth_token'') = Some (str ''T'')"
proof -
  let ?cl = "constructor (Str (str ''ck'')) (Str (str ''cs''))"
  let ?ps = "[(str ''oauth_token'', str ''T''), (str ''x'', str ''1'')]"
  let ?r = "\<lparr>resp_ok = True, resp_text = str ''oauth_token=T&x=1''\<rparr>"
  have p: "URLSearchParams testPlatform (resp_text ?r) = ?ps"
    by (simp add: testPlatform_def splitPairs_def)
  have n: "str ''oauth_token_secret'' \<notin> fst ` set ?ps" by simp
  have m: "map_of ?ps (str ''oauth_token'') = Some (str ''T'')" by simp
  note w = getAccessTokenParamsFrom_sets_token
    [of ?r testPlatform ?cl "str ''oauth_token_secret''" ?ps ?ps "str ''oauth_token''" "str ''T''"]
  from w n have g1: "get ?ps (str ''oauth_token_secret'') = Null" by blast
  from w m have g2: "get ?ps (str ''oauth_token'') = Str (str ''T'')" by blast
  from w have "getAccessTokenParamsFrom testPlatform ?cl ?r
      = (Inr (URLSearchParams testPlatform (resp_text ?r)),
         ?cl\<lparr>token := get (URLSearchParams testPlatform (resp_text ?r)) (str ''oauth_token''),
               tokenSecret := get (URLSearchParams testPlatform (resp_text ?r)) (str ''oauth_token_secret'')\<rparr>)"
    by simp
  then have a: "getAccessTokenParamsFrom testPlatform ?cl ?r
      = (Inr ?ps, ?cl\<lparr>token := Str (str ''T''), tokenSecret := Null\<rparr>)"
    unfolding p g1 g2 .
  from a n m show ?thesis by simp
qed


section \<open>Properties of the request builder\<close>

lemmas request_eval =
  makeRequestForRequestToken_def makeRequestForAccessToken_def makeRequest_def isPost_def
  requestTokenOAuthParams_def
  getAuthHeaderValue_def getCredentials_def getSignature_def baseString_def keyString_def
  buildBody_def getNonce_def getTimestamp_def OAuth_type_def signatureMethod_def version_def
  setToken_def orDefault_def constructor_def testPlatform_def asciiUpper_def

lemma makeRequest_Inr:
  assumes "makeRequest P this requestURL opts = Inr req"
  shows "buildURL requestURL (case opt_params opts of None \<Rightarrow> [] | Some ps \<Rightarrow> ps)
           (isPost (case opt_method opts of None \<Rightarrow> str ''GET'' | Some m \<Rightarrow> m) (opt_bodyValue opts))
         = Inr (req_url req)"
    and "req_method req = (case opt_method opts of None \<Rightarrow> str ''GET'' | Some m \<Rightarrow> m)"
  using assms by (auto simp: makeRequest_def Let_def split: sum.splits)

lemma makeRequest_no_body:
  assumes "makeRequest P this requestURL opts = Inr req" "opt_bodyValue opts = Prim Undefined"
  shows "\<exists>auth. getAuthHeaderValue P this (case opt_method opts of None \<Rightarrow> str ''GET'' | Some m \<Rightarrow> m)
            requestURL (case opt_params opts of None \<Rightarrow> [] | Some ps \<Rightarrow> ps)
            (case opt_oAuthParams opts of None \<Rightarrow> [] | Some ps \<Rightarrow> ps) (ParamList []) = Inr auth
          \<and> req_headers req = [(''Authorization'', auth)]"
    and "req_body req = None"
  using assms by (auto simp: makeRequest_def Let_def isPost_def split: sum.splits)

lemma truthy_iff:
  "truthy b = (b \<notin> {Prim Undefined, Prim Null, Prim (Bool False), Prim (Num 0), Prim (Str [])})"
proof (cases b)
  case (Prim v)
  then show ?thesis by (cases v) auto
next
  case (ParamList ps)
  then show ?thesis by simp
qed

lemma buildURL_alt:
  "buildURL u ps post = (if post \<or> ps = [] then Inr u else appendE (Inr (u @ str ''?'')) (buildQuery ps))"
  by (cases "buildQuery ps") (simp_all add: buildURL_def)



lemma enc_literals:
  "encodePercent (Str (str ''oauth_callback'')) = Inr (str ''oauth_callback'')"
  "encodePercent (Str (str ''oauth_consumer_key'')) = Inr (str ''oauth_consumer_key'')"
  "encodePercent (Str (str ''oauth_nonce'')) = Inr (str ''oauth_nonce'')"
  "encodePercent (Str (str ''oauth_signature_method'')) = Inr (str ''oauth_signature_method'')"
  "encodePercent (Str (str ''oauth_timestamp'')) = Inr (str ''oauth_timestamp'')"
  "encodePercent (Str (str ''oauth_version'')) = Inr (str ''oauth_version'')"
  "encodePercent (Str (str ''oauth_signature'')) = Inr (str ''oauth_signature'')"
  "encodePercent (Str (str ''HMAC-SHA1'')) = Inr (str ''HMAC-SHA1'')"
  "encodePercent (Str (str ''1.0'')) = Inr (str ''1.0'')"
  "encodePercent (Str (str ''oob'')) = Inr (str ''oob'')"
  by (simp_all add: encode_eval)

lemma encodePercent_wellEscaped: "encodePercent v = Inr t \<Longrightarrow> wellEscaped t"
  unfolding encodePercent_def by (rule enc_wellEscaped)

lemma getAuthHeaderValue_Inr:
  assumes "getAuthHeaderValue P this m u ps oa b = Inr auth"
  shows "\<exists>signature items. getSignature P this m u ps oa b = Inr signature
           \<and> mapE credentialPair (oa @ [(Str (str ''oauth_signature''), Str signature)]) = Inr items
           \<and> auth = OAuth_type @ str '' '' @ join (str '', '') items"
  using assms by (auto simp: getAuthHeaderValue_def getCredentials_def split: sum.splits)

lemma credentialPair_Inr:
  "credentialPair (Str (str k), v) = Inr item \<Longrightarrow> encodePercent (Str (str k)) = Inr (str k) \<Longrightarrow>
   \<exists>e. encodePercent v = Inr e \<and> item = str k @ str ''='' @ quoted e"
  by (auto simp: credentialPair_def split: sum.splits)

lemma mapE_Cons_Inr:
  "mapE f (x # xs) = Inr items \<Longrightarrow> \<exists>y ys. f x = Inr y \<and> mapE f xs = Inr ys \<and> items = y # ys"
  by (auto split: sum.splits)

lemma requestToken_credentials:
  assumes "mapE credentialPair
     (requestTokenOAuthParams P random now this callbackURL @ [(Str (str ''oauth_signature''), Str signature)])
     = Inr items"
  shows "\<exists>cb ck nonce ts sg.
      encodePercent callbackURL = Inr cb
    \<and> encodePercent (consumerKey this) = Inr ck
    \<and> encodePercent (Str (getNonce P random)) = Inr nonce
    \<and> encodePercent (Num (getTimestamp now)) = Inr ts
    \<and> encodePercent (Str signature) = Inr sg
    \<and> items =
        [str ''oauth_callback'' @ str ''='' @ quoted cb,
         str ''oauth_consumer_key'' @ str ''='' @ quoted ck,
         str ''oauth_nonce'' @ str ''='' @ quoted nonce,
         str ''oauth_signature_method'' @ str ''='' @ quoted (str ''HMAC-SHA1''),
         str ''oauth_timestamp'' @ str ''='' @ quoted ts,
         str ''oauth_version'' @ str ''='' @ quoted (str ''1.0''),
         str ''oauth_signature'' @ str ''='' @ quoted sg]"
proof -
  from assms obtain i1 r1 where 1: "credentialPair (Str (str ''oauth_callback''), callbackURL) = Inr i1"
    and r1: "mapE credentialPair
      [(Str (str ''oauth_consumer_key''), consumerKey this),
      (Str (str ''oauth_nonce''), Str (getNonce P random)),
      (Str (str ''oauth_signature_method''), Str signatureMethod),
      (Str (str ''oauth_timestamp''), Num (getTimestamp now)),
      (Str (str ''oauth_version''), Str version),
      (Str (str ''oauth_signature''), Str signature)] = Inr r1" and i1: "items = i1 # r1"
    unfolding requestTokenOAuthParams_def append_Cons append_Nil by (blast dest: mapE_Cons_Inr)
  from r1 obtain i2 r2 where 2: "credentialPair (Str (str ''oauth_consumer_key''), consumerKey this) = Inr i2"
    and r2: "mapE credentialPair
      [(Str (str ''oauth_nonce''), Str (getNonce P random)),
      (Str (str ''oauth_signature_method''), Str signatureMethod),
      (Str (str ''oauth_timestamp''), Num (getTimestamp now)),
      (Str (str ''oauth_version''), Str version),
      (Str (str ''oauth_signature''), Str signature)] = Inr r2" and i2: "r1 = i2 # r2"
    by (blast dest: mapE_Cons_Inr)
  from r2 obtain i3 r3 where 3: "credentialPair (Str (str ''oauth_nonce''), Str (getNonce P random)) = Inr i3"
    and r3: "mapE credentialPair
      [(Str (str ''oauth_signature_method''), Str signatureMethod),
      (Str (str ''oauth_timestamp''), Num (getTimestamp now)),
      (Str (str ''oauth_version''), Str version),
      (Str (str ''oauth_signature''), Str signature)] = Inr r3" and i3: "r2 = i3 # r3"
    by (blast dest: mapE_Cons_Inr)
  from r3 obtain i4 r4 where 4: "credentialPair (Str (str ''oauth_signature_method''), Str signatureMethod) = Inr i4"
    and r4: "mapE credentialPair
      [(Str (str ''oauth_timestamp''), Num (getTimestamp now)),
      (Str (str ''oauth_version''), Str version),
      (Str (str ''oauth_signature''), Str signature)] = Inr r4" and i4: "r3 = i4 # r4"
    by (blast dest: mapE_Cons_Inr)
  from r4 obtain i5 r5 where 5: "credentialPair (Str (str ''oauth_timestamp''), Num (getTimestamp now)) = Inr i5"
    and r5: "mapE credentialPair
      [(Str (str ''oauth_version''), Str version),
      (Str (str ''oauth_signature''), Str signature)] = Inr r5" and i5: "r4 = i5 # r5"
    by (blast dest: mapE_Cons_Inr)
  from r5 obtain i6 r6 where 6: "credentialPair (Str (str ''oauth_version''), Str version) = Inr i6"
    and r6: "mapE credentialPair [(Str (str ''oauth_signature''), Str signature)] = Inr r6"
    and i6: "r5 = i6 # r6"
    by (blast dest: mapE_Cons_Inr)
  from mapE_Cons_Inr [OF r6] obtain i7 where 7: "credentialPair (Str (str ''oauth_signature''), Str signature) = Inr i7"
    and i7: "r6 = [i7]"
    by auto
  from credentialPair_Inr [OF 1 enc_literals(1)] obtain cb where
    cb: "encodePercent callbackURL = Inr cb" "i1 = str ''oauth_callback'' @ str ''='' @ quoted cb" by blast
  from credentialPair_Inr [OF 2 enc_literals(2)] obtain ck where
    ck: "encodePercent (consumerKey this) = Inr ck" "i2 = str ''oauth_consumer_key'' @ str ''='' @ quoted ck" by blast
  from credentialPair_Inr [OF 3 enc_literals(3)] obtain nonce where
    nonce: "encodePercent (Str (getNonce P random)) = Inr nonce" "i3 = str ''oauth_nonce'' @ str ''='' @ quoted nonce" by blast
  from credentialPair_Inr [OF 4 enc_literals(4)]
  have sm: "i4 = str ''oauth_signature_method'' @ str ''='' @ quoted (str ''HMAC-SHA1'')"
    using enc_literals(8) by (auto simp: signatureMethod_def)
  from credentialPair_Inr [OF 5 enc_literals(5)] obtain ts where
    ts: "encodePercent (Num (getTimestamp now)) = Inr ts" "i5 = str ''oauth_timestamp'' @ str ''='' @ quoted ts" by blast
  from credentialPair_Inr [OF 6 enc_literals(6)]
  have ve: "i6 = str ''oauth_version'' @ str ''='' @ quoted (str ''1.0'')"
    using enc_literals(9) by (auto simp: version_def)
  from credentialPair_Inr [OF 7 enc_literals(7)] obtain sg where
    sg: "encodePercent (Str signature) = Inr sg" "i7 = str ''oauth_signature'' @ str ''='' @ quoted sg" by blast
  from cb ck nonce ts sg sm ve i1 i2 i3 i4 i5 i6 i7 show ?thesis by blast
qed

lemma join7:
  "join sep [a, b, c, d, e, f, g] = a @ sep @ b @ sep @ c @ sep @ d @ sep @ e @ sep @ f @ sep @ g"
  by simp


section \<open>The claims about the requests\<close>

text \<open>
  A \<open>POST\<close> request whose supplied body value is the empty string: \<open>isPost\<close> is falsy, and
  the parameters are appended to the URL as a query string.
\<close>

theorem post_with_empty_body_gets_query:
  "map_sum id req_url
     (makeRequest testPlatform (constructor (Str (str ''ck'')) (Str (str ''cs''))) (str ''http://h/r'')
        \<lparr>opt_method = Some (str ''POST''), opt_params = Some [(Str (str ''a''), Str (str ''1''))],
         opt_oAuthParams = None, opt_contentType = Some (str ''text/plain''),
         opt_bodyValue = Prim (Str [])\<rparr>)
   = Inr (str ''http://h/r?a=1'')"
  by (simp add: request_eval params_eval encode_eval Let_def)

text \<open>
  Claim C7, amended. \<open>isPost\<close> holds exactly when the method is the string \<open>POST\<close> and the
  body value is truthy, that is, none of \<open>undefined\<close>, \<open>null\<close>, \<open>false\<close>, \<open>0\<close> and the empty
  string. The URL of the request is the base URL, with \<open>?\<close> and the query string built from
  \<open>params\<close> appended if and only if \<open>isPost\<close> is false and \<open>params\<close> is not empty.
\<close>

theorem makeRequest_url:
  "(makeRequest P this requestURL opts = Inr req \<longrightarrow>
      buildURL requestURL (case opt_params opts of None \<Rightarrow> [] | Some ps \<Rightarrow> ps)
        (isPost (case opt_method opts of None \<Rightarrow> str ''GET'' | Some m \<Rightarrow> m) (opt_bodyValue opts))
      = Inr (req_url req))
   \<and> isPost method bodyValue = (method = str ''POST'' \<and> truthy bodyValue)
   \<and> truthy bodyValue =
       (bodyValue \<notin> {Prim Undefined, Prim Null, Prim (Bool False), Prim (Num 0), Prim (Str [])})
   \<and> buildURL url params post =
       (if post \<or> params = [] then Inr url else appendE (Inr (url @ str ''?'')) (buildQuery params))"
proof (intro conjI impI)
  assume "makeRequest P this requestURL opts = Inr req"
  then show "buildURL requestURL (case opt_params opts of None \<Rightarrow> [] | Some ps \<Rightarrow> ps)
        (isPost (case opt_method opts of None \<Rightarrow> str ''GET'' | Some m \<Rightarrow> m) (opt_bodyValue opts))
      = Inr (req_url req)"
    by (rule makeRequest_Inr)
next
  show "isPost method bodyValue = (method = str ''POST'' \<and> truthy bodyValue)"
    by (auto simp: isPost_def)
next
  show "truthy bodyValue =
       (bodyValue \<notin> {Prim Undefined, Prim Null, Prim (Bool False), Prim (Num 0), Prim (Str [])})"
    by (rule truthy_iff)
next
  show "buildURL url params post =
       (if post \<or> params = [] then Inr url else appendE (Inr (url @ str ''?'')) (buildQuery params))"
    by (rule buildURL_alt)
qed

text \<open>The theorem at a \<open>GET\<close> request with the parameter \<open>a=1\<close>.\<close>

theorem makeRequest_url_witness:
  "makeRequest testPlatform (constructor (Str (str ''ck'')) (Str (str ''cs''))) (str ''http://h/r'')
        \<lparr>opt_method = None, opt_params = Some [(Str (str ''a''), Str (str ''1''))],
         opt_oAuthParams = None, opt_contentType = None, opt_bodyValue = Prim Undefined\<rparr>
     = Inr \<lparr>req_url = str ''http://h/r?a=1'', req_method = str ''GET'',
            req_headers = [(''Authorization'', str ''OAuth oauth_signature='' @ quoted (str ''c2ln%2B%2FY%3D''))],
            req_body = None\<rparr>
   \<and> buildURL (str ''http://h/r'') [(Str (str ''a''), Str (str ''1''))] (isPost (str ''GET'') (Prim Undefined))
       = Inr (str ''http://h/r?a=1'')"
proof -
  let ?opts = "\<lparr>opt_method = None, opt_params = Some [(Str (str ''a''), Str (str ''1''))],
         opt_oAuthParams = None, opt_contentType = None, opt_bodyValue = Prim Undefined\<rparr>"
  let ?req = "\<lparr>req_url = str ''http://h/r?a=1'', req_method = str ''GET'',
            req_headers = [(''Authorization'', str ''OAuth oauth_signature='' @ quoted (str ''c2ln%2B%2FY%3D''))],
            req_body = None\<rparr>"
  have e: "makeRequest testPlatform (constructor (Str (str ''ck'')) (Str (str ''cs''))) (str ''http://h/r'') ?opts
     = Inr ?req"
    by (simp add: request_eval params_eval encode_eval Let_def)
  from makeRequest_url
    [of testPlatform "constructor (Str (str ''ck'')) (Str (str ''cs''))" "str ''http://h/r''" ?opts ?req
      "str ''GET''" "Prim Undefined" "[]" "[]" True] e
  show ?thesis by (simp add: isPost_def)
qed

text \<open>
  Claim C10. Whatever the client holds, a request that \<open>makeRequestForAccessToken\<close> produces
  has the given access-token URL as its URL, with nothing appended, has no body, and has the
  \<open>Authorization\<close> header as its only header: the method passes no \<open>params\<close> and no
  \<open>bodyValue\<close>, and with an \<open>undefined\<close> body value \<open>isPost\<close> is false for every method.
\<close>

theorem makeRequestForAccessToken_bare_url:
  "(makeRequestForAccessToken P random now this accessTokenURL verifier methodOpt = Inr req \<longrightarrow>
      req_url req = accessTokenURL
      \<and> req_body req = None
      \<and> map fst (req_headers req) = [''Authorization'']
      \<and> req_method req = (case methodOpt of None \<Rightarrow> str ''POST'' | Some m \<Rightarrow> m))
   \<and> \<not> isPost method (Prim Undefined)"
proof (intro conjI impI)
  let ?opts = "\<lparr>opt_method = Some (case methodOpt of None \<Rightarrow> str ''POST'' | Some m \<Rightarrow> m),
      opt_params = None,
      opt_oAuthParams = Some
            [(Str (str ''oauth_consumer_key''), consumerKey this),
             (Str (str ''oauth_nonce''), Str (getNonce P random)),
             (Str (str ''oauth_signature_method''), Str signatureMethod),
             (Str (str ''oauth_timestamp''), Num (getTimestamp now)),
             (Str (str ''oauth_token''), token this),
             (Str (str ''oauth_verifier''), verifier),
             (Str (str ''oauth_version''), Str version)],
      opt_contentType = None, opt_bodyValue = Prim Undefined\<rparr>"
  assume "makeRequestForAccessToken P random now this accessTokenURL verifier methodOpt = Inr req"
  then have m: "makeRequest P this accessTokenURL ?opts = Inr req"
    by (simp add: makeRequestForAccessToken_def Let_def)
  from makeRequest_Inr(1) [OF m] show "req_url req = accessTokenURL"
    by (simp add: buildURL_def)
  from makeRequest_no_body(2) [OF m] show "req_body req = None" by simp
  from makeRequest_no_body(1) [OF m] show "map fst (req_headers req) = [''Authorization'']" by auto
  from makeRequest_Inr(2) [OF m]
  show "req_method req = (case methodOpt of None \<Rightarrow> str ''POST'' | Some m \<Rightarrow> m)" by simp
next
  show "\<not> isPost method (Prim Undefined)" by (simp add: isPost_def)
qed

text \<open>The theorem on a client whose token is \<open>null\<close>.\<close>

theorem makeRequestForAccessToken_bare_url_witness:
  "makeRequestForAccessToken testPlatform [0x01, 0xAB] 1700000000123
     (setToken Null (Str (str ''sec'')) (constructor (Str (str ''ck'')) (Str (str ''cs''))))
     (str ''https://h/a'') (Str (str ''123'')) None
   = Inr \<lparr>req_url = str ''https://h/a'', req_method = str ''POST'',
          req_headers =
            [(''Authorization'',
              str ''OAuth oauth_consumer_key='' @ quoted (str ''ck'')
              @ str '', oauth_nonce='' @ quoted (str ''01ab'')
              @ str '', oauth_signature_method='' @ quoted (str ''HMAC-SHA1'')
              @ str '', oauth_timestamp='' @ quoted (str ''1700000000'')
              @ str '', oauth_token='' @ quoted (str ''null'')
              @ str '', oauth_verifier='' @ quoted (str ''123'')
              @ str '', oauth_version='' @ quoted (str ''1.0'')
              @ str '', oauth_signature='' @ quoted (str ''c2ln%2B%2FY%3D''))],
          req_body = None\<rparr>
   \<and> map fst [(''Authorization'', str ''x'')] = [''Authorization'']"
proof -
  let ?req = "\<lparr>req_url = str ''https://h/a'', req_method = str ''POST'',
          req_headers =
            [(''Authorization'',
              str ''OAuth oauth_consumer_key='' @ quoted (str ''ck'')
              @ str '', oauth_nonce='' @ quoted (str ''01ab'')
              @ str '', oauth_signature_method='' @ quoted (str ''HMAC-SHA1'')
              @ str '', oauth_timestamp='' @ quoted (str ''1700000000'')
              @ str '', oauth_token='' @ quoted (str ''null'')
              @ str '', oauth_verifier='' @ quoted (str ''123'')
              @ str '', oauth_version='' @ quoted (str ''1.0'')
              @ str '', oauth_signature='' @ quoted (str ''c2ln%2B%2FY%3D''))],
          req_body = None\<rparr>"
  have e: "makeRequestForAccessToken testPlatform [0x01, 0xAB] 1700000000123
     (setToken Null (Str (str ''sec'')) (constructor (Str (str ''ck'')) (Str (str ''cs''))))
     (str ''https://h/a'') (Str (str ''123'')) None = Inr ?req"
    by (simp add: request_eval params_eval encode_eval Let_def)
  from makeRequestForAccessToken_bare_url
    [of testPlatform "[0x01, 0xAB]" 1700000000123
     "setToken Null (Str (str ''sec'')) (constructor (Str (str ''ck'')) (Str (str ''cs'')))"
     "str ''https://h/a''" "Str (str ''123'')" None ?req "str ''POST''"] e
  show ?thesis by simp
qed

text \<open>
  Claim C8. The \<open>Authorization\<close> header of a request that \<open>makeRequestForRequestToken\<close>
  produces is \<open>OAuth\<close>, a space, and seven items \<open>key="value"\<close> separated by a comma and a
  space: \<open>oauth_callback\<close>, \<open>oauth_consumer_key\<close>, \<open>oauth_nonce\<close>, \<open>oauth_signature_method\<close>,
  \<open>oauth_timestamp\<close>, \<open>oauth_version\<close> and, last, \<open>oauth_signature\<close>. Every value is
  percent-encoded, so it holds no quote, comma, space or equals sign of its own. The
  signature is computed from the six parameters before it, none of which is named
  \<open>oauth_signature\<close>. Without a \<open>callbackURL\<close> option the first item is \<open>oauth_callback="oob"\<close>.
  The call resets the token of the client.
\<close>

theorem requestToken_authorization_header:
  "(makeRequestForRequestToken P random now this0 requestTokenURL methodOpt paramsOpt callbackOpt
      = (Inr req, this) \<longrightarrow>
     this = setToken Undefined Undefined this0
     \<and> (\<exists>cb ck nonce ts signature sg.
          encodePercent (orDefault callbackOpt (Str (str ''oob''))) = Inr cb
        \<and> encodePercent (consumerKey this0) = Inr ck
        \<and> encodePercent (Str (getNonce P random)) = Inr nonce
        \<and> encodePercent (Num (getTimestamp now)) = Inr ts
        \<and> getSignature P this (case methodOpt of None \<Rightarrow> str ''POST'' | Some m \<Rightarrow> m) requestTokenURL
             (case paramsOpt of None \<Rightarrow> [] | Some ps \<Rightarrow> ps)
             (requestTokenOAuthParams P random now this (orDefault callbackOpt (Str (str ''oob''))))
             (ParamList []) = Inr signature
        \<and> encodePercent (Str signature) = Inr sg
        \<and> wellEscaped cb \<and> wellEscaped ck \<and> wellEscaped nonce \<and> wellEscaped ts \<and> wellEscaped sg
        \<and> req_headers req =
            [(''Authorization'',
              str ''OAuth oauth_callback='' @ quoted cb
              @ str '', oauth_consumer_key='' @ quoted ck
              @ str '', oauth_nonce='' @ quoted nonce
              @ str '', oauth_signature_method='' @ quoted (str ''HMAC-SHA1'')
              @ str '', oauth_timestamp='' @ quoted ts
              @ str '', oauth_version='' @ quoted (str ''1.0'')
              @ str '', oauth_signature='' @ quoted sg)]))
   \<and> orDefault Undefined (Str (str ''oob'')) = Str (str ''oob'')
   \<and> encodePercent (Str (str ''oob'')) = Inr (str ''oob'')
   \<and> map fst (requestTokenOAuthParams P random now cl callbackURL) =
       [Str (str ''oauth_callback''), Str (str ''oauth_consumer_key''), Str (str ''oauth_nonce''),
        Str (str ''oauth_signature_method''), Str (str ''oauth_timestamp''), Str (str ''oauth_version'')]"
proof (intro conjI impI)
  let ?m = "case methodOpt of None \<Rightarrow> str ''POST'' | Some m \<Rightarrow> m"
  let ?ps = "case paramsOpt of None \<Rightarrow> [] | Some ps \<Rightarrow> ps"
  let ?cbv = "orDefault callbackOpt (Str (str ''oob''))"
  let ?th = "setToken Undefined Undefined this0"
  let ?oa = "requestTokenOAuthParams P random now ?th ?cbv"
  let ?opts = "\<lparr>opt_method = Some ?m, opt_params = Some ?ps, opt_oAuthParams = Some ?oa,
          opt_contentType = None, opt_bodyValue = Prim Undefined\<rparr>"
  assume a: "makeRequestForRequestToken P random now this0 requestTokenURL methodOpt paramsOpt callbackOpt
      = (Inr req, this)"
  then show th: "this = setToken Undefined Undefined this0"
    by (simp add: makeRequestForRequestToken_def Let_def)
  from a have m: "makeRequest P ?th requestTokenURL ?opts = Inr req"
    by (auto simp: makeRequestForRequestToken_def Let_def)
  from makeRequest_no_body(1) [OF m] obtain auth where
    auth: "getAuthHeaderValue P ?th ?m requestTokenURL ?ps ?oa (ParamList []) = Inr auth"
    and h: "req_headers req = [(''Authorization'', auth)]"
    by auto
  from getAuthHeaderValue_Inr [OF auth] obtain signature items where
    sig: "getSignature P ?th ?m requestTokenURL ?ps ?oa (ParamList []) = Inr signature"
    and items: "mapE credentialPair (?oa @ [(Str (str ''oauth_signature''), Str signature)]) = Inr items"
    and au: "auth = OAuth_type @ str '' '' @ join (str '', '') items"
    by blast
  from requestToken_credentials [OF items] obtain cb ck nonce ts sg where
    e: "encodePercent ?cbv = Inr cb" "encodePercent (consumerKey ?th) = Inr ck"
      "encodePercent (Str (getNonce P random)) = Inr nonce"
      "encodePercent (Num (getTimestamp now)) = Inr ts"
      "encodePercent (Str signature) = Inr sg"
    and it: "items =
        [str ''oauth_callback'' @ str ''='' @ quoted cb,
         str ''oauth_consumer_key'' @ str ''='' @ quoted ck,
         str ''oauth_nonce'' @ str ''='' @ quoted nonce,
         str ''oauth_signature_method'' @ str ''='' @ quoted (str ''HMAC-SHA1''),
         str ''oauth_timestamp'' @ str ''='' @ quoted ts,
         str ''oauth_version'' @ str ''='' @ quoted (str ''1.0''),
         str ''oauth_signature'' @ str ''='' @ quoted sg]"
    by blast
  have ck: "encodePercent (consumerKey this0) = Inr ck"
    using e(2) by (simp add: setToken_def)
  have hd: "req_headers req =
            [(''Authorization'',
              str ''OAuth oauth_callback='' @ quoted cb
              @ str '', oauth_consumer_key='' @ quoted ck
              @ str '', oauth_nonce='' @ quoted nonce
              @ str '', oauth_signature_method='' @ quoted (str ''HMAC-SHA1'')
              @ str '', oauth_timestamp='' @ quoted ts
              @ str '', oauth_version='' @ quoted (str ''1.0'')
              @ str '', oauth_signature='' @ quoted sg)]"
    unfolding h au it join7 by (simp add: OAuth_type_def)
  from e ck sig hd th encodePercent_wellEscaped [OF e(1)] encodePercent_wellEscaped [OF ck]
    encodePercent_wellEscaped [OF e(3)] encodePercent_wellEscaped [OF e(4)]
    encodePercent_wellEscaped [OF e(5)]
  show "\<exists>cb ck nonce ts signature sg.
          encodePercent (orDefault callbackOpt (Str (str ''oob''))) = Inr cb
        \<and> encodePercent (consumerKey this0) = Inr ck
        \<and> encodePercent (Str (getNonce P random)) = Inr nonce
        \<and> encodePercent (Num (getTimestamp now)) = Inr ts
        \<and> getSignature P this (case methodOpt of None \<Rightarrow> str ''POST'' | Some m \<Rightarrow> m) requestTokenURL
             (case paramsOpt of None \<Rightarrow> [] | Some ps \<Rightarrow> ps)
             (requestTokenOAuthParams P random now this (orDefault callbackOpt (Str (str ''oob''))))
             (ParamList []) = Inr signature
        \<and> encodePercent (Str signature) = Inr sg
        \<and> wellEscaped cb \<and> wellEscaped ck \<and> wellEscaped nonce \<and> wellEscaped ts \<and> wellEscaped sg
        \<and> req_headers req =
            [(''Authorization'',
              str ''OAuth oauth_callback='' @ quoted cb
              @ str '', oauth_consumer_key='' @ quoted ck
              @ str '', oauth_nonce='' @ quoted nonce
              @ str '', oauth_signature_method='' @ quoted (str ''HMAC-SHA1'')
              @ str '', oauth_timestamp='' @ quoted ts
              @ str '', oauth_version='' @ quoted (str ''1.0'')
              @ str '', oauth_signature='' @ quoted sg)]"
    by blast
next
  show "orDefault Undefined (Str (str ''oob'')) = Str (str ''oob'')" by (simp add: orDefault_def)
next
  show "encodePercent (Str (str ''oob'')) = Inr (str ''oob'')" by (rule enc_literals(10))
next
  show "map fst (requestTokenOAuthParams P random now cl callbackURL) =
       [Str (str ''oauth_callback''), Str (str ''oauth_consumer_key''), Str (str ''oauth_nonce''),
        Str (str ''oauth_signature_method''), Str (str ''oauth_timestamp''), Str (str ''oauth_version'')]"
    by (simp add: requestTokenOAuthParams_def)
qed


text \<open>The theorem on a client that holds a token, with no options given.\<close>

theorem requestToken_authorization_header_witness:
  "makeRequestForRequestToken testPlatform
     [0x00, 0x11, 0x22, 0x33, 0x44, 0x55, 0x66, 0x77, 0x88, 0x99, 0xAA, 0xBB, 0xCC, 0xDD, 0xEE, 0xFF]
     1700000000123
     (setToken (Str (str ''old'')) (Str (str ''s'')) (constructor (Str (str ''c k'')) (Str (str ''cs''))))
     (str ''https://h/rt'') None None Undefined
   = (Inr \<lparr>req_url = str ''https://h/rt'', req_method = str ''POST'',
           req_headers =
             [(''Authorization'',
               str ''OAuth oauth_callback='' @ quoted (str ''oob'')
               @ str '', oauth_consumer_key='' @ quoted (str ''c%20k'')
               @ str '', oauth_nonce='' @ quoted (str ''00112233445566778899aabbccddeeff'')
               @ str '', oauth_signature_method='' @ quoted (str ''HMAC-SHA1'')
               @ str '', oauth_timestamp='' @ quoted (str ''1700000000'')
               @ str '', oauth_version='' @ quoted (str ''1.0'')
               @ str '', oauth_signature='' @ quoted (str ''c2ln%2B%2FY%3D''))],
           req_body = None\<rparr>,
      constructor (Str (str ''c k'')) (Str (str ''cs'')))
   \<and> constructor (Str (str ''c k'')) (Str (str ''cs''))
       = setToken Undefined Undefined
           (setToken (Str (str ''old'')) (Str (str ''s'')) (constructor (Str (str ''c k'')) (Str (str ''cs''))))"
proof -
  let ?rnd = "[0x00, 0x11, 0x22, 0x33, 0x44, 0x55, 0x66, 0x77, 0x88, 0x99, 0xAA, 0xBB, 0xCC, 0xDD, 0xEE, 0xFF] :: 8 word list"
  let ?cl = "setToken (Str (str ''old'')) (Str (str ''s'')) (constructor (Str (str ''c k'')) (Str (str ''cs'')))"
  let ?req = "\<lparr>req_url = str ''https://h/rt'', req_method = str ''POST'',
           req_headers =
             [(''Authorization'',
               str ''OAuth oauth_callback='' @ quoted (str ''oob'')
               @ str '', oauth_consumer_key='' @ quoted (str ''c%20k'')
               @ str '', oauth_nonce='' @ quoted (str ''00112233445566778899aabbccddeeff'')
               @ str '', oauth_signature_method='' @ quoted (str ''HMAC-SHA1'')
               @ str '', oauth_timestamp='' @ quoted (str ''1700000000'')
               @ str '', oauth_version='' @ quoted (str ''1.0'')
               @ str '', oauth_signature='' @ quoted (str ''c2ln%2B%2FY%3D''))],
           req_body = None\<rparr>"
  have e: "makeRequestForRequestToken testPlatform ?rnd 1700000000123 ?cl (str ''https://h/rt'')
             None None Undefined
           = (Inr ?req, constructor (Str (str ''c k'')) (Str (str ''cs'')))"
    by (simp add: request_eval params_eval encode_eval Let_def)
  from requestToken_authorization_header
    [of testPlatform ?rnd 1700000000123 ?cl "str ''https://h/rt''" None None Undefined ?req
      "constructor (Str (str ''c k'')) (Str (str ''cs''))" ?cl Undefined] e
  show ?thesis by simp
qed

end
